theory Spec2Isabelle
  imports Complex_Main "HOL-Library.Sublist" "HOL-Library.Multiset"
begin

section \<open>Strings and the JavaScript string primitives the code uses\<close>

text \<open>
  A JavaScript string is a sequence of UTF-16 code units. The model covers the texts whose
  code units are below 256 and writes them as Isabelle strings, one \<open>char\<close> per code unit.
  All literals of the source (labels, service names, keywords) are ASCII.
\<close>

definition LF :: char where
  "LF = CHR 0x0A"

definition CR :: char where
  "CR = CHR 0x0D"

text \<open>
  The class \<open>\s\<close> of a regular expression, and the characters \<open>String.prototype.trim\<close>
  strips, below code unit 256: TAB, LF, VT, FF, CR, SPACE and NO-BREAK SPACE.
\<close>

definition isSpace :: "char \<Rightarrow> bool" where
  "isSpace c = (c = CHR 0x09 \<or> c = CHR 0x0A \<or> c = CHR 0x0B \<or> c = CHR 0x0C \<or> c = CHR 0x0D
     \<or> c = CHR 0x20 \<or> c = CHR 0xA0)"

definition trim :: "string \<Rightarrow> string" where
  "trim s = rev (dropWhile isSpace (rev (dropWhile isSpace s)))"

text \<open>
  Case folding of one code unit as the \<open>i\<close> flag of a regular expression does it (without
  the \<open>u\<close> flag): a code unit is compared by its upper-case form, and a code unit of 128
  or more never folds to an ASCII one. All pattern characters are ASCII, so only the ASCII
  letters matter.
\<close>

definition asciiUpper :: "char \<Rightarrow> char" where
  "asciiUpper c = (let n = (of_char c :: nat) in if 97 \<le> n \<and> n \<le> 122 then char_of (n - 32) else c)"

text \<open>
  \<open>String.prototype.toUpperCase\<close> and \<open>toLowerCase\<close>, one code unit at a time. Below 256
  the upper-case mapping is: ASCII and Latin-1 small letters lose 32, the sharp s (223)
  becomes the two letters SS, and everything else stays. The micro sign (181) and the
  y with diaeresis (255) have upper-case forms above 255; they stay as they are in the
  model, which is a non-ASCII code unit either way.
\<close>

definition upperChar :: "char \<Rightarrow> string" where
  "upperChar c = (let n = (of_char c :: nat) in
     if 97 \<le> n \<and> n \<le> 122 then [char_of (n - 32)]
     else if n = 223 then ''SS''
     else if 224 \<le> n \<and> n \<le> 254 \<and> n \<noteq> 247 then [char_of (n - 32)]
     else [c])"

definition toUpperCase :: "string \<Rightarrow> string" where
  "toUpperCase s = concat (map upperChar s)"

definition lowerChar :: "char \<Rightarrow> char" where
  "lowerChar c = (let n = (of_char c :: nat) in
     if 65 \<le> n \<and> n \<le> 90 then char_of (n + 32)
     else if 192 \<le> n \<and> n \<le> 222 \<and> n \<noteq> 215 then char_of (n + 32)
     else c)"

definition toLowerCase :: "string \<Rightarrow> string" where
  "toLowerCase s = map lowerChar s"

text \<open>\<open>haystack.startsWith(needle)\<close> and \<open>haystack.includes(needle)\<close>.\<close>

fun startsWith :: "string \<Rightarrow> string \<Rightarrow> bool" where
  "startsWith s [] = True"
| "startsWith [] (p # ps) = False"
| "startsWith (c # cs) (p # ps) = (c = p \<and> startsWith cs ps)"

fun includesStr :: "string \<Rightarrow> string \<Rightarrow> bool" where
  "includesStr [] needle = (needle = [])"
| "includesStr (c # cs) needle = (startsWith (c # cs) needle \<or> includesStr cs needle)"

section \<open>parser.ts\<close>

record ParsedQuestion =
  question :: string
  options :: "string list"
  yourAnswer :: string
  correctAnswer :: string
  explanation :: string
  rawText :: string

text \<open>
  \<open>text.replace(/\r\n/g, "\n").replace(/\r/g, "\n")\<close>: two passes, as in the source.
\<close>

fun replaceCRLF :: "string \<Rightarrow> string" where
  "replaceCRLF [] = []"
| "replaceCRLF [c] = [c]"
| "replaceCRLF (c # d # cs) =
     (if c = CR \<and> d = LF then LF # replaceCRLF cs else c # replaceCRLF (d # cs))"

definition replaceCR :: "string \<Rightarrow> string" where
  "replaceCR s = map (\<lambda>c. if c = CR then LF else c) s"

definition normalizeLineBreaks :: "string \<Rightarrow> string" where
  "normalizeLineBreaks t = replaceCR (replaceCRLF t)"

text \<open>
  The regular expressions are translated one by one into matchers that follow the
  backtracking order of the JavaScript engine. \<open>matchLit p s\<close> matches the literal \<open>p\<close>
  at the start of \<open>s\<close> under the \<open>i\<close> flag and returns what follows it.
\<close>

fun matchLit :: "string \<Rightarrow> string \<Rightarrow> string option" where
  "matchLit [] s = Some s"
| "matchLit (p # ps) [] = None"
| "matchLit (p # ps) (c # cs) = (if asciiUpper p = asciiUpper c then matchLit ps cs else None)"

text \<open>The classes \<open>[A-D]\<close> (under \<open>i\<close>), \<open>[:\s]\<close> and \<open>[:\)\.]\<close>.\<close>

definition isLetterAD :: "char \<Rightarrow> bool" where
  "isLetterAD c = (asciiUpper c = CHR ''A'' \<or> asciiUpper c = CHR ''B''
     \<or> asciiUpper c = CHR ''C'' \<or> asciiUpper c = CHR ''D'')"

definition isColonOrSpace :: "char \<Rightarrow> bool" where
  "isColonOrSpace c = (c = CHR '':'' \<or> isSpace c)"

definition isSeparator :: "char \<Rightarrow> bool" where
  "isSeparator c = (c = CHR '':'' \<or> c = CHR '')'' \<or> c = CHR ''.'')"

subsection \<open>The question stem\<close>

text \<open>
  \<open>/(?:Question[:\s]*|Q[:\s]*)(.*?)(?=(?:A\)|Options:|Your Answer:|Correct Answer:|$))/is\<close>

  The lookahead holds at the end of the input at the latest (no \<open>m\<close> flag: \<open>$\<close> is the
  end of the input; \<open>s\<close> flag: the dot matches every code unit), so once the label has
  matched, the greedy \<open>[:\s]*\<close> keeps its longest run and the lazy group stops at the first
  position where the lookahead holds.
\<close>

definition questionStop :: "string \<Rightarrow> bool" where
  "questionStop s = (matchLit ''A)'' s \<noteq> None \<or> matchLit ''Options:'' s \<noteq> None
     \<or> matchLit ''Your Answer:'' s \<noteq> None \<or> matchLit ''Correct Answer:'' s \<noteq> None \<or> s = [])"

fun lazyUntilStop :: "string \<Rightarrow> string" where
  "lazyUntilStop [] = []"
| "lazyUntilStop (c # cs) = (if questionStop (c # cs) then [] else c # lazyUntilStop cs)"

text \<open>The first group of the leftmost match, or \<open>None\<close> when the expression has no match.\<close>

fun questionMatch :: "string \<Rightarrow> string option" where
  "questionMatch [] = None"
| "questionMatch (c # cs) =
     (case matchLit ''Question'' (c # cs) of
        Some r \<Rightarrow> Some (lazyUntilStop (dropWhile isColonOrSpace r))
      | None \<Rightarrow>
          (case matchLit ''Q'' (c # cs) of
             Some r \<Rightarrow> Some (lazyUntilStop (dropWhile isColonOrSpace r))
           | None \<Rightarrow> questionMatch cs))"

subsection \<open>The options\<close>

text \<open>
  \<open>/([A-D])[:\)\.]?\s*([^\n]+)/gi\<close>, run by \<open>exec\<close> in a loop.

  \<open>restOfLine s\<close> is \<open>\s*([^\n]+)\<close> at the start of \<open>s\<close>: the second group and the
  input after the match. The greedy \<open>\s*\<close> first takes one more white-space character;
  only when nothing matches after that does it stop, and \<open>[^\n]+\<close> then takes the rest
  of the line, which must not be empty.
\<close>

definition lineFrom :: "string \<Rightarrow> (string \<times> string) option" where
  "lineFrom s = (case s of
       [] \<Rightarrow> None
     | c # cs \<Rightarrow> if c = LF then None
                else Some (takeWhile (\<lambda>x. x \<noteq> LF) s, dropWhile (\<lambda>x. x \<noteq> LF) s))"

fun restOfLine :: "string \<Rightarrow> (string \<times> string) option" where
  "restOfLine [] = None"
| "restOfLine (c # cs) =
     (if isSpace c then
        (case restOfLine cs of Some r \<Rightarrow> Some r | None \<Rightarrow> lineFrom (c # cs))
      else lineFrom (c # cs))"

text \<open>
  One attempt at the start of \<open>s\<close>: the letter, then the optional separator (taken first,
  given up when nothing matches after it), then \<open>restOfLine\<close>. The result is the letter,
  the second group and the input after the match.
\<close>

definition optionAt :: "string \<Rightarrow> (char \<times> string \<times> string) option" where
  "optionAt s = (case s of
       [] \<Rightarrow> None
     | c # cs \<Rightarrow>
         if isLetterAD c then
           (case (case cs of [] \<Rightarrow> None | d # ds \<Rightarrow> if isSeparator d then restOfLine ds else None) of
              Some (g, rest) \<Rightarrow> Some (c, g, rest)
            | None \<Rightarrow> (case restOfLine cs of Some (g, rest) \<Rightarrow> Some (c, g, rest) | None \<Rightarrow> None))
         else None)"

text \<open>
  A match ends strictly after the position it started at, so the \<open>exec\<close> loop below
  terminates.
\<close>

lemma lineFrom_shorter: "lineFrom s = Some (g, rest) \<Longrightarrow> length rest < length s"
  by (cases s) (auto simp: lineFrom_def le_imp_less_Suc length_dropWhile_le split: if_splits)

lemma restOfLine_shorter: "restOfLine s = Some (g, rest) \<Longrightarrow> length rest < length s"
proof (induction s)
  case Nil
  then show ?case by simp
next
  case (Cons c cs)
  show ?case
  proof (cases "isSpace c \<and> restOfLine cs \<noteq> None")
    case True
    with Cons.prems have "restOfLine cs = Some (g, rest)" by auto
    with Cons.IH show ?thesis by simp
  next
    case False
    with Cons.prems have "lineFrom (c # cs) = Some (g, rest)"
      by (auto split: if_splits option.splits)
    then show ?thesis by (rule lineFrom_shorter)
  qed
qed

lemma optionAt_shorter:
  assumes "optionAt s = Some (l, g, rest)"
  shows "length rest < length s"
proof (cases s)
  case Nil
  with assms show ?thesis by (simp add: optionAt_def)
next
  case (Cons c cs)
  with assms consider
      (sep) d ds where "cs = d # ds" and "restOfLine ds = Some (g, rest)"
    | (nosep) "restOfLine cs = Some (g, rest)"
    by (auto simp: optionAt_def simp del: restOfLine.simps
             split: if_splits option.splits list.splits)
  then show ?thesis
  proof cases
    case sep
    from restOfLine_shorter [OF sep(2)] sep(1) Cons show ?thesis by simp
  next
    case nosep
    from restOfLine_shorter [OF nosep] Cons show ?thesis by simp
  qed
qed

text \<open>
  The \<open>exec\<close> loop: the leftmost match from the current position is pushed as
  \<open>`${match[1]}: ${match[2].trim()}`\<close> and the scan goes on after it, until no match is
  left.
\<close>

function extractOptions :: "string \<Rightarrow> string list" where
  "extractOptions [] = []"
| "extractOptions (c # cs) =
     (case optionAt (c # cs) of
        Some (l, g, rest) \<Rightarrow> (l # '': '' @ trim g) # extractOptions rest
      | None \<Rightarrow> extractOptions cs)"
  by pat_completeness auto
termination
  by (relation "measure length") (auto dest: optionAt_shorter)

subsection \<open>The answers and the explanation\<close>

text \<open>
  \<open>/Your\s+Answer[:\s]*([A-D])/i\<close> and \<open>/Correct\s+Answer[:\s]*([A-D])/i\<close>, with the
  first word as a parameter. The classes \<open>\s\<close> and \<open>[:\s]\<close> share no character with what
  follows them, so a shorter run than the longest one never matches.
\<close>

definition answerAt :: "string \<Rightarrow> string \<Rightarrow> char option" where
  "answerAt word s =
     (case matchLit word s of
        None \<Rightarrow> None
      | Some r \<Rightarrow>
          (case r of
             [] \<Rightarrow> None
           | w # ws \<Rightarrow>
               if isSpace w then
                 (case matchLit ''Answer'' (dropWhile isSpace ws) of
                    None \<Rightarrow> None
                  | Some r2 \<Rightarrow>
                      (case dropWhile isColonOrSpace r2 of
                         [] \<Rightarrow> None
                       | l # _ \<Rightarrow> if isLetterAD l then Some l else None))
               else None))"

fun answerMatch :: "string \<Rightarrow> string \<Rightarrow> char option" where
  "answerMatch word [] = None"
| "answerMatch word (c # cs) =
     (case answerAt word (c # cs) of Some l \<Rightarrow> Some l | None \<Rightarrow> answerMatch word cs)"

text \<open>\<open>/Explanation[:\s]*(.*?)$/is\<close>: the lazy group runs to the end of the input.\<close>

fun explanationMatch :: "string \<Rightarrow> string option" where
  "explanationMatch [] = None"
| "explanationMatch (c # cs) =
     (case matchLit ''Explanation'' (c # cs) of
        Some r \<Rightarrow> Some (dropWhile isColonOrSpace r)
      | None \<Rightarrow> explanationMatch cs)"

definition parseQuestion :: "string \<Rightarrow> ParsedQuestion" where
  "parseQuestion t =
     (let normalized = normalizeLineBreaks t in
      \<lparr> question = (case questionMatch normalized of Some g \<Rightarrow> trim g | None \<Rightarrow> []),
        options = extractOptions normalized,
        yourAnswer = (case answerMatch ''Your'' normalized of
                        Some l \<Rightarrow> toUpperCase [l] | None \<Rightarrow> []),
        correctAnswer = (case answerMatch ''Correct'' normalized of
                           Some l \<Rightarrow> toUpperCase [l] | None \<Rightarrow> []),
        explanation = (case explanationMatch normalized of Some g \<Rightarrow> trim g | None \<Rightarrow> []),
        rawText = t \<rparr>)"

section \<open>awsTagger.ts\<close>

record AWSTags =
  services :: "string list"
  domains :: "string list"
  "keywords" :: "string list"

definition AWS_SERVICES :: "string list" where
  "AWS_SERVICES =
     [''EC2'', ''Lambda'', ''Elastic Beanstalk'', ''ECS'', ''EKS'', ''Fargate'', ''Lightsail'',
      ''S3'', ''EBS'', ''EFS'', ''FSx'', ''Storage Gateway'', ''Glacier'',
      ''RDS'', ''DynamoDB'', ''ElastiCache'', ''Aurora'', ''DocumentDB'', ''Neptune'',
      ''Redshift'', ''MemoryDB'',
      ''VPC'', ''CloudFront'', ''Route 53'', ''API Gateway'', ''Direct Connect'', ''ELB'',
      ''ALB'', ''NLB'', ''Global Accelerator'',
      ''IAM'', ''Cognito'', ''Secrets Manager'', ''KMS'', ''Systems Manager'',
      ''Parameter Store'', ''WAF'', ''Shield'', ''GuardDuty'', ''Inspector'',
      ''SQS'', ''SNS'', ''EventBridge'', ''Step Functions'', ''SWF'', ''Amazon MQ'',
      ''Kinesis'', ''AppSync'',
      ''CodeCommit'', ''CodeBuild'', ''CodeDeploy'', ''CodePipeline'', ''CodeArtifact'',
      ''CodeGuru'', ''X-Ray'', ''CloudFormation'',
      ''CloudWatch'', ''CloudTrail'', ''Config'', ''Systems Manager'',
      ''ECR'', ''App Runner'',
      ''SAM'', ''Amplify'']"

text \<open>
  \<open>DOMAINS\<close> is an object literal; \<open>Object.entries\<close> lists its properties in the order
  they are written.
\<close>

definition DOMAINS :: "(string \<times> string list) list" where
  "DOMAINS =
     [(''Development with AWS Services'',
         [''Lambda'', ''API Gateway'', ''DynamoDB'', ''S3'', ''SQS'', ''SNS'', ''EventBridge'',
          ''Step Functions'']),
      (''Security'',
         [''IAM'', ''Cognito'', ''KMS'', ''Secrets Manager'', ''Parameter Store'', ''WAF'',
          ''X-Ray'']),
      (''Deployment'',
         [''CodeDeploy'', ''CodePipeline'', ''CodeBuild'', ''CodeCommit'', ''Elastic Beanstalk'',
          ''CloudFormation'', ''SAM'']),
      (''Troubleshooting and Optimization'',
         [''CloudWatch'', ''X-Ray'', ''CloudTrail'', ''ElastiCache'', ''DynamoDB'', ''Lambda''])]"

text \<open>The local constant \<open>keywords\<close> of \<open>tagQuestion\<close>.\<close>

definition keywordList :: "string list" where
  "keywordList =
     [''serverless'', ''microservices'', ''container'', ''scaling'', ''high availability'',
      ''fault tolerant'', ''cost optimization'', ''performance'', ''security'', ''encryption'',
      ''caching'', ''monitoring'', ''logging'', ''deployment'', ''CI/CD'', ''blue-green'',
      ''canary'', ''rollback'', ''throttling'', ''rate limiting'', ''CORS'', ''authentication'',
      ''authorization'', ''least privilege'', ''IAM role'', ''policy'', ''VPC'', ''subnet'',
      ''security group'', ''NACL'', ''queue'', ''topic'', ''event-driven'', ''asynchronous'',
      ''synchronous'', ''idempotent'', ''stateless'', ''stateful'', ''cold start'']"

text \<open>
  The test of the first loop: \<open>upperText.includes(serviceUpper) ||
  upperText.includes(`AWS ${serviceUpper}`)\<close>.
\<close>

definition mentions :: "string \<Rightarrow> string \<Rightarrow> bool" where
  "mentions upperText service =
     (let serviceUpper = toUpperCase service
      in includesStr upperText serviceUpper \<or> includesStr upperText (''AWS '' @ serviceUpper))"

definition tagQuestion :: "string \<Rightarrow> AWSTags" where
  "tagQuestion t =
     (let upperText = toUpperCase t;
          svcs = filter (mentions upperText) AWS_SERVICES;
          doms = map fst
                   (filter (\<lambda>(domain, members).
                        list_ex (\<lambda>s. list_ex (\<lambda>ts. toUpperCase ts = toUpperCase s) svcs) members)
                      DOMAINS);
          kws = filter (\<lambda>keyword. includesStr upperText (toUpperCase keyword)) keywordList
      in \<lparr> services = svcs, domains = doms, keywords = kws \<rparr>)"

section \<open>analyzer.ts\<close>

datatype difficulty = easy | medium | hard

record QuestionAnalysis =
  "file" :: string
  parsed :: ParsedQuestion
  tags :: AWSTags
  isCorrect :: bool
  difficulty :: "difficulty option"

text \<open>
  The counters are JavaScript numbers that only ever count, modelled as \<open>nat\<close>. An
  accuracy is the quotient \<open>correct / total * 100\<close>, modelled as an exact rational; the
  source computes it in binary floating point.
\<close>

record Breakdown =
  total :: nat
  correct :: nat
  incorrect :: nat
  accuracy :: rat

text \<open>The entries of \<open>weakAreas\<close> and of \<open>strongAreas\<close> have the same three fields.\<close>

record Area =
  service :: string
  accuracy :: rat
  questionsReviewed :: nat

record KeywordFrequency =
  keyword :: string
  count :: nat

text \<open>
  The recommendations are fixed messages, three of them with an interpolated part. Each
  constructor stands for one message of \<open>generateRecommendations\<close>; every message starts
  with a symbol of its own, so two different constructors are two different strings.
  \<^item> \<open>FundamentalsReview\<close>: "Overall score below 60% - recommend reviewing AWS fundamentals
    and service overviews"
  \<^item> \<open>OnTrack\<close>: "You're on track! Focus on weak areas to boost your score above 75%"
  \<^item> \<open>ExamReady\<close>: "Excellent performance! You're exam-ready. Focus on scenario-based
    practice"
  \<^item> \<open>PriorityReview topWeak\<close>: "Priority review needed: $topWeak"
  \<^item> \<open>DeepDive domain accuracy\<close>: "$domain: $accuracy% - Deep dive recommended" (the
    source prints the accuracy with one decimal)
  \<^item> \<open>SecurityPattern\<close>: "Security pattern detected - review IAM policies, KMS encryption,
    and Cognito authentication"
  \<^item> \<open>ServerlessAttention\<close>: "Serverless concepts need attention - review Lambda triggers,
    async patterns, and cold starts"
  \<^item> \<open>ProcessMore\<close>: "Process more questions (20+) for accurate weak-area detection"
\<close>

datatype recommendation =
    FundamentalsReview
  | OnTrack
  | ExamReady
  | PriorityReview string
  | DeepDive string rat
  | SecurityPattern
  | ServerlessAttention
  | ProcessMore

text \<open>
  \<open>serviceBreakdown\<close> and \<open>domainBreakdown\<close> are objects used as dictionaries. They are
  association lists in the order the properties were created, which is the order
  \<open>Object.keys\<close> and \<open>Object.entries\<close> list them in. This is how an object behaves for
  the names the tagger produces; a name that is an array index (which an object lists
  first) or a property every object inherits (such as \<open>constructor\<close>) is outside the
  model.
\<close>

type_synonym breakdowns = "(string \<times> Breakdown) list"

record StudySummary =
  totalQuestions :: nat
  correctCount :: nat
  incorrectCount :: nat
  accuracy :: rat
  serviceBreakdown :: breakdowns
  domainBreakdown :: breakdowns
  weakAreas :: "Area list"
  strongAreas :: "Area list"
  topKeywords :: "KeywordFrequency list"
  recommendations :: "recommendation list"

record HeatmapItem =
  service :: string
  accuracy :: rat
  total :: nat
  color :: string
  status :: string

text \<open>
  \<open>Array.prototype.sort(compare)\<close> is stable: elements that compare equal keep their
  order. It is modelled as an insertion sort that puts an element before the first one it
  does not compare greater than.
\<close>

fun insertBy :: "('a \<Rightarrow> 'a \<Rightarrow> rat) \<Rightarrow> 'a \<Rightarrow> 'a list \<Rightarrow> 'a list" where
  "insertBy compare x [] = [x]"
| "insertBy compare x (y # ys) =
     (if compare x y \<le> 0 then x # y # ys else y # insertBy compare x ys)"

definition sortBy :: "('a \<Rightarrow> 'a \<Rightarrow> rat) \<Rightarrow> 'a list \<Rightarrow> 'a list" where
  "sortBy compare xs = foldr (insertBy compare) xs []"

subsection \<open>generateSummary\<close>

definition emptyBreakdown :: Breakdown where
  "emptyBreakdown = \<lparr> Breakdown.total = 0, correct = 0, incorrect = 0, accuracy = 0 \<rparr>"

text \<open>\<open>b.total++; if (analysis.isCorrect) b.correct++; else b.incorrect++;\<close>\<close>

definition countAnswer :: "bool \<Rightarrow> Breakdown \<Rightarrow> Breakdown" where
  "countAnswer ok b =
     (if ok then b\<lparr> Breakdown.total := Breakdown.total b + 1, correct := correct b + 1 \<rparr>
      else b\<lparr> Breakdown.total := Breakdown.total b + 1, incorrect := incorrect b + 1 \<rparr>)"

text \<open>
  One step of the inner loop: the entry of \<open>key\<close> is created when the object has none,
  then counted.
\<close>

fun observe :: "bool \<Rightarrow> string \<Rightarrow> breakdowns \<Rightarrow> breakdowns" where
  "observe ok key [] = [(key, countAnswer ok emptyBreakdown)]"
| "observe ok key ((k, b) # bd) =
     (if k = key then (k, countAnswer ok b) # bd else (k, b) # observe ok key bd)"

text \<open>
  The two nested \<open>forEach\<close> loops over the analyses and, for each, over the names
  \<open>names (tags analysis)\<close>.
\<close>

definition buildBreakdown :: "(AWSTags \<Rightarrow> string list) \<Rightarrow> QuestionAnalysis list \<Rightarrow> breakdowns" where
  "buildBreakdown names analyses =
     foldl (\<lambda>bd analysis. foldl (\<lambda>bd key. observe (isCorrect analysis) key bd) bd (names (tags analysis)))
       [] analyses"

text \<open>\<open>breakdown.accuracy = (breakdown.correct / breakdown.total) * 100\<close> for every key.\<close>

definition setAccuracy :: "Breakdown \<Rightarrow> Breakdown" where
  "setAccuracy b = b\<lparr> Breakdown.accuracy := of_nat (correct b) / of_nat (Breakdown.total b) * 100 \<rparr>"

definition calculateAccuracies :: "breakdowns \<Rightarrow> breakdowns" where
  "calculateAccuracies bd = map (\<lambda>(k, b). (k, setAccuracy b)) bd"

text \<open>
  The loop over \<open>Object.entries(summary.serviceBreakdown)\<close> pushes an entry to
  \<open>weakAreas\<close>, to \<open>strongAreas\<close> or to neither; each list receives its entries in the
  order of the breakdown.
\<close>

definition toArea :: "string \<times> Breakdown \<Rightarrow> Area" where
  "toArea e = \<lparr> Area.service = fst e, accuracy = Breakdown.accuracy (snd e),
                questionsReviewed = Breakdown.total (snd e) \<rparr>"

definition isWeak :: "Breakdown \<Rightarrow> bool" where
  "isWeak d = (Breakdown.total d \<ge> 2 \<and> Breakdown.accuracy d < 70)"

definition isStrong :: "Breakdown \<Rightarrow> bool" where
  "isStrong d = (Breakdown.total d \<ge> 2 \<and> \<not> Breakdown.accuracy d < 70 \<and> Breakdown.accuracy d \<ge> 85)"

text \<open>
  \<open>keywordMap\<close> is a \<open>Map\<close>: \<open>set\<close> on a new key appends it, \<open>set\<close> on a present key
  changes its value in place.
\<close>

fun countKeyword :: "string \<Rightarrow> (string \<times> nat) list \<Rightarrow> (string \<times> nat) list" where
  "countKeyword kw [] = [(kw, 1)]"
| "countKeyword kw ((k, n) # m) =
     (if k = kw then (k, n + 1) # m else (k, n) # countKeyword kw m)"

definition keywordMap :: "QuestionAnalysis list \<Rightarrow> (string \<times> nat) list" where
  "keywordMap analyses =
     foldl (\<lambda>m analysis. foldl (\<lambda>m kw. countKeyword kw m) m (keywords (tags analysis))) [] analyses"

definition join :: "string \<Rightarrow> string list \<Rightarrow> string" where
  "join sep xs = (case xs of [] \<Rightarrow> [] | y # ys \<Rightarrow> foldl (\<lambda>acc x. acc @ sep @ x) y ys)"

definition generateRecommendations :: "StudySummary \<Rightarrow> QuestionAnalysis list \<Rightarrow> recommendation list" where
  "generateRecommendations summary analyses =
     (let overall =
            (if StudySummary.accuracy summary < 60 then [FundamentalsReview]
             else if StudySummary.accuracy summary < 75 then [OnTrack]
             else if StudySummary.accuracy summary \<ge> 85 then [ExamReady]
             else []);
          weak =
            (if length (weakAreas summary) > 0
             then [PriorityReview (join '', '' (map Area.service (take 3 (weakAreas summary))))]
             else []);
          deep =
            map (\<lambda>(name, data). DeepDive name (Breakdown.accuracy data))
              (filter (\<lambda>(name, data). Breakdown.accuracy data < 65) (domainBreakdown summary));
          incorrectAnalyses = filter (\<lambda>a. \<not> isCorrect a) analyses;
          securityMistakes =
            filter (\<lambda>a. list_ex (\<lambda>s. s \<in> set [''IAM'', ''KMS'', ''Cognito'', ''Secrets Manager''])
                          (services (tags a)))
              incorrectAnalyses;
          security = (if length securityMistakes \<ge> 3 then [SecurityPattern] else []);
          serverlessMistakes =
            filter (\<lambda>a. list_ex (\<lambda>k. includesStr (toLowerCase k) ''serverless''
                                     \<or> includesStr (toLowerCase k) ''lambda'')
                          (keywords (tags a)))
              incorrectAnalyses;
          serverless = (if length serverlessMistakes \<ge> 3 then [ServerlessAttention] else []);
          strategy = (if totalQuestions summary < 20 then [ProcessMore] else [])
      in overall @ weak @ deep @ security @ serverless @ strategy)"

text \<open>
  The first loop of \<open>generateSummary\<close>: \<open>correctCount\<close> and \<open>incorrectCount\<close>, one of
  them incremented for each analysis.
\<close>

definition countResults :: "QuestionAnalysis list \<Rightarrow> nat \<times> nat" where
  "countResults analyses =
     foldl (\<lambda>(c, i) analysis. if isCorrect analysis then (c + 1, i) else (c, i + 1)) (0, 0) analyses"

definition generateSummary :: "QuestionAnalysis list \<Rightarrow> StudySummary" where
  "generateSummary analyses =
     (let total' = length analyses;
          correct' = fst (countResults analyses);
          incorrect' = snd (countResults analyses);
          accuracy' = (if total' > 0 then of_nat correct' / of_nat total' * 100 else 0);
          services' = calculateAccuracies (buildBreakdown services analyses);
          domains' = calculateAccuracies (buildBreakdown domains analyses);
          weak' = sortBy (\<lambda>a b. Area.accuracy a - Area.accuracy b)
                    (map toArea (filter (\<lambda>(k, d). isWeak d) services'));
          strong' = sortBy (\<lambda>a b. Area.accuracy b - Area.accuracy a)
                      (map toArea (filter (\<lambda>(k, d). isStrong d) services'));
          top' =
            take 15
              (sortBy (\<lambda>a b. of_nat (KeywordFrequency.count b) - of_nat (KeywordFrequency.count a))
                 (map (\<lambda>(k, n). \<lparr> keyword = k, count = n \<rparr>) (keywordMap analyses)));
          summary = \<lparr> totalQuestions = total', correctCount = correct',
                      incorrectCount = incorrect', accuracy = accuracy',
                      serviceBreakdown = services', domainBreakdown = domains',
                      weakAreas = weak', strongAreas = strong',
                      topKeywords = top', recommendations = [] \<rparr>
      in summary\<lparr> recommendations := generateRecommendations summary analyses \<rparr>)"

subsection \<open>generateHeatmapData\<close>

definition getHeatColor :: "rat \<Rightarrow> string" where
  "getHeatColor acc =
     (if acc \<ge> 85 then ''#22c55e''
      else if acc \<ge> 70 then ''#eab308''
      else if acc \<ge> 50 then ''#f97316''
      else ''#ef4444'')"

definition getStatus :: "rat \<Rightarrow> string" where
  "getStatus acc =
     (if acc \<ge> 85 then ''Strong''
      else if acc \<ge> 70 then ''Good''
      else if acc \<ge> 50 then ''Review''
      else ''Weak'')"

text \<open>
  \<open>summary.serviceBreakdown[service]\<close> for a key of the object; \<open>emptyBreakdown\<close> stands
  for a key the object does not have, which \<open>Object.keys\<close> never gives.
\<close>

definition breakdownOf :: "breakdowns \<Rightarrow> string \<Rightarrow> Breakdown" where
  "breakdownOf bd key = (case map_of bd key of Some d \<Rightarrow> d | None \<Rightarrow> emptyBreakdown)"

definition generateHeatmapData :: "StudySummary \<Rightarrow> HeatmapItem list" where
  "generateHeatmapData summary =
     (let allServices = map fst (serviceBreakdown summary)
      in sortBy (\<lambda>a b. HeatmapItem.accuracy a - HeatmapItem.accuracy b)
           (map (\<lambda>name.
                   let data = breakdownOf (serviceBreakdown summary) name
                   in \<lparr> HeatmapItem.service = name, accuracy = Breakdown.accuracy data,
                        total = Breakdown.total data, color = getHeatColor (Breakdown.accuracy data),
                        status = getStatus (Breakdown.accuracy data) \<rparr>)
              allServices))"

section \<open>ocr.ts and the upload handler of index.ts\<close>

text \<open>
  What the program does not compute itself is a parameter: \<open>readFile\<close> is
  \<open>fs.readFileSync\<close> followed by the base64 encoding, \<open>recognize\<close> is the Tesseract
  worker, \<open>basename\<close> is \<open>path.basename\<close>. A call that throws is \<open>Inl\<close> of the
  message of the error, a call that returns is \<open>Inr\<close> of the value.
\<close>

record environment =
  readFile :: "string \<Rightarrow> string + string"
  recognize :: "string \<Rightarrow> string + string"
  basename :: "string \<Rightarrow> string"

text \<open>
  \<open>ocrImage\<close>: an error of the worker is thrown again as \<open>OCR failed: ...\<close>; a text that
  is empty or blank gives the empty string, any other text is trimmed.
\<close>

definition ocrImage :: "environment \<Rightarrow> string \<Rightarrow> string + string" where
  "ocrImage env base64 =
     (case recognize env base64 of
        Inl message \<Rightarrow> Inl (''OCR failed: '' @ message)
      | Inr t \<Rightarrow> if t = [] \<or> length (trim t) = 0 then Inr [] else Inr (trim t))"

text \<open>The entry the \<open>catch\<close> block pushes.\<close>

definition failedEntry :: "string \<Rightarrow> string \<Rightarrow> QuestionAnalysis" where
  "failedEntry fileName message =
     \<lparr> file = fileName,
       parsed = \<lparr> question = [], options = [], yourAnswer = [], correctAnswer = [],
                  explanation = [], rawText = ''Error: '' @ message \<rparr>,
       tags = \<lparr> services = [], domains = [], keywords = [] \<rparr>,
       isCorrect = False,
       difficulty = None \<rparr>"

text \<open>The entry the \<open>try\<close> block pushes for a recognized text.\<close>

definition analysedEntry :: "string \<Rightarrow> string \<Rightarrow> QuestionAnalysis" where
  "analysedEntry fileName extractedText =
     (let parsed' = parseQuestion extractedText;
          tags' = tagQuestion extractedText;
          isCorrect' = (yourAnswer parsed' = correctAnswer parsed')
      in \<lparr> file = fileName, parsed = parsed', tags = tags', isCorrect = isCorrect',
           difficulty = None \<rparr>)"

text \<open>The body of the loop over the image files: the \<open>try\<close> block and its \<open>catch\<close>.\<close>

definition processImage :: "environment \<Rightarrow> string \<Rightarrow> QuestionAnalysis" where
  "processImage env filePath =
     (let fileName = basename env filePath
      in case readFile env filePath of
           Inl message \<Rightarrow> failedEntry fileName message
         | Inr base64 \<Rightarrow>
             (case ocrImage env base64 of
                Inl message \<Rightarrow> failedEntry fileName message
              | Inr extractedText \<Rightarrow> analysedEntry fileName extractedText))"

text \<open>
  \<open>for (let i = 0; i < imageFiles.length; i++) { ... analyses.push(...) }\<close>, with the
  files still to process and the array \<open>analyses\<close> as the state.
\<close>

fun processImages :: "environment \<Rightarrow> string list \<Rightarrow> QuestionAnalysis list \<Rightarrow> QuestionAnalysis list" where
  "processImages env [] analyses = analyses"
| "processImages env (filePath # imageFiles) analyses =
     processImages env imageFiles (analyses @ [processImage env filePath])"

section \<open>What the properties speak about\<close>

text \<open>
  Every name the analyses were tagged with, in the order of the analyses, once per
  occurrence; \<open>names\<close> is \<open>services\<close>, \<open>domains\<close> or \<open>keywords\<close>. The number of
  observations of a name is the number of its occurrences in this list.
\<close>

definition observedNames :: "(AWSTags \<Rightarrow> string list) \<Rightarrow> QuestionAnalysis list \<Rightarrow> string list" where
  "observedNames names analyses = concat (map (\<lambda>analysis. names (tags analysis)) analyses)"

text \<open>
  The pairs of correctness and name that the two nested loops of a breakdown visit, in
  the order they visit them.
\<close>

definition observationsOf :: "(AWSTags \<Rightarrow> string list) \<Rightarrow> QuestionAnalysis list \<Rightarrow> (bool \<times> string) list" where
  "observationsOf names analyses =
     concat (map (\<lambda>a. map (\<lambda>k. (isCorrect a, k)) (names (tags a))) analyses)"

text \<open>
  The number of questions tagged with a name: the analyses whose list \<open>names\<close> holds
  it, each counted once however often the list holds it.
\<close>

definition questionsTagged :: "(AWSTags \<Rightarrow> string list) \<Rightarrow> QuestionAnalysis list \<Rightarrow> string \<Rightarrow> nat" where
  "questionsTagged names analyses name =
     length (filter (\<lambda>analysis. name \<in> set (names (tags analysis))) analyses)"

text \<open>
  A text contains the label "Your Answer" (or "Correct Answer") when somewhere in it the
  first word and the word "Answer" stand, in any letter case, with white space between
  them: the label as the two answer expressions read it.
\<close>

definition labelAt :: "string \<Rightarrow> string \<Rightarrow> bool" where
  "labelAt word s =
     (case matchLit word s of
        None \<Rightarrow> False
      | Some r \<Rightarrow>
          (case r of
             [] \<Rightarrow> False
           | w # ws \<Rightarrow> isSpace w \<and> matchLit ''Answer'' (dropWhile isSpace ws) \<noteq> None))"

fun containsLabel :: "string \<Rightarrow> string \<Rightarrow> bool" where
  "containsLabel word [] = False"
| "containsLabel word (c # cs) = (labelAt word (c # cs) \<or> containsLabel word cs)"

text \<open>The position at which \<open>x\<close> is first seen in \<open>xs\<close> (the length of \<open>xs\<close> when it is not).\<close>

definition firstSeen :: "'a list \<Rightarrow> 'a \<Rightarrow> nat" where
  "firstSeen xs x = length (takeWhile (\<lambda>y. y \<noteq> x) xs)"

section \<open>Sample inputs\<close>

text \<open>The text of the first scenario of the specification.\<close>

definition scenario1 :: string where
  "scenario1 = ''Question: What is S3? A) Object storage B) Block storage Your Answer: A Correct Answer: A Explanation: S3 is object storage.''"

text \<open>An analysis with the given tags and correctness, and nothing parsed.\<close>

definition analysisOf :: "string list \<Rightarrow> string list \<Rightarrow> string list \<Rightarrow> bool \<Rightarrow> QuestionAnalysis" where
  "analysisOf svcs doms kws ok =
     \<lparr> file = ''q.png'',
       parsed = \<lparr> question = [], options = [], yourAnswer = [], correctAnswer = [],
                  explanation = [], rawText = [] \<rparr>,
       tags = \<lparr> services = svcs, domains = doms, keywords = kws \<rparr>,
       isCorrect = ok,
       difficulty = None \<rparr>"

text \<open>
  Five analyses: IAM is observed three times (once right), S3 once (wrong) and KMS twice
  (both right).
\<close>

definition sampleAnalyses :: "QuestionAnalysis list" where
  "sampleAnalyses =
     [analysisOf [''IAM''] [''Security''] [''policy'', ''VPC''] True,
      analysisOf [''IAM''] [''Security''] [''VPC''] False,
      analysisOf [''S3'', ''IAM''] [''Security''] [''encryption'', ''policy''] False,
      analysisOf [''KMS''] [''Security''] [''encryption''] True,
      analysisOf [''KMS''] [''Security''] [''VPC''] True]"

text \<open>A summary of no analyses whose overall accuracy is set to the given value.\<close>

definition summaryWithAccuracy :: "rat \<Rightarrow> StudySummary" where
  "summaryWithAccuracy acc =
     \<lparr> totalQuestions = 0, correctCount = 0, incorrectCount = 0, accuracy = acc,
       serviceBreakdown = [], domainBreakdown = [], weakAreas = [], strongAreas = [],
       topKeywords = [], recommendations = [] \<rparr>"

text \<open>
  An environment for four files: the first and the last are read and recognized, the
  worker fails on the second, and the third cannot be read.
\<close>

definition sampleEnvironment :: environment where
  "sampleEnvironment =
     \<lparr> readFile = (\<lambda>filePath. if filePath = ''zip/c.png'' then Inl ''ENOENT'' else Inr filePath),
       recognize = (\<lambda>base64. if base64 = ''zip/b.png'' then Inl ''bad image''
                              else Inr '' Your Answer: B ''),
       basename = drop 4 \<rparr>"

definition sampleFiles :: "string list" where
  "sampleFiles = [''zip/a.png'', ''zip/b.png'', ''zip/c.png'', ''zip/d.png'']"

text \<open>A text with no answer in it, and a text that names a service listed twice.\<close>

definition unansweredText :: string where
  "unansweredText = ''What is S3?''"

definition systemsManagerText :: string where
  "systemsManagerText = ''Use Systems Manager''"

text \<open>
  A single answered question that mentions Systems Manager, as the upload loop analyses
  it.
\<close>

definition systemsManagerAnswered :: string where
  "systemsManagerAnswered = ''Use Systems Manager. Your Answer: A Correct Answer: A''"

definition oneQuestion :: "QuestionAnalysis list" where
  "oneQuestion = [analysedEntry ''q.png'' systemsManagerAnswered]"

text \<open>The text of the first scenario with one field per line.\<close>

definition scenario1Lines :: string where
  "scenario1Lines =
     ''Question: What is S3?'' @ [LF] @ ''A) Object storage'' @ [LF] @ ''B) Block storage'' @ [LF]
     @ ''Your Answer: A'' @ [LF] @ ''Correct Answer: A'' @ [LF]
     @ ''Explanation: S3 is object storage.''"

section \<open>Properties\<close>

subsection \<open>Sorting\<close>

lemma insertBy_key: "insertBy (\<lambda>a b. f a - f b) x xs = insort_key f x xs"
  by (induction xs) auto

lemma sortBy_ascending: "sortBy (\<lambda>a b. f a - f b) xs = sort_key f xs"
  by (induction xs) (auto simp: sortBy_def insertBy_key)

lemma sortBy_descending: "sortBy (\<lambda>a b. f b - f a) xs = sort_key (\<lambda>x. - f x) xs"
proof -
  have "(\<lambda>a b. f b - f a) = (\<lambda>a b. (- f a) - (- f b))" by (intro ext) simp
  then show ?thesis using sortBy_ascending [of "\<lambda>x. - f x" xs] by simp
qed

subsection \<open>The overall counters\<close>

lemma countResults_foldl:
  "foldl (\<lambda>(c, i) analysis. if isCorrect analysis then (c + 1, i) else (c, i + 1)) (c0, i0) xs
     = (c0 + length (filter isCorrect xs), i0 + length (filter (\<lambda>a. \<not> isCorrect a) xs))"
  by (induction xs arbitrary: c0 i0) auto

lemma countResults_eq:
  "countResults xs = (length (filter isCorrect xs), length (filter (\<lambda>a. \<not> isCorrect a) xs))"
  unfolding countResults_def using countResults_foldl [of 0 0 xs] by simp

lemma generateSummary_counts:
  "totalQuestions (generateSummary xs) = length xs"
  "correctCount (generateSummary xs) = fst (countResults xs)"
  "incorrectCount (generateSummary xs) = snd (countResults xs)"
  "StudySummary.accuracy (generateSummary xs) =
     (if length xs > 0 then of_nat (fst (countResults xs)) / of_nat (length xs) * 100 else 0)"
  by (simp_all add: generateSummary_def Let_def)

lemma ratio_bounds:
  fixes c t :: nat
  assumes "c \<le> t"
  shows "0 \<le> (of_nat c :: rat) / of_nat t * 100" and "(of_nat c :: rat) / of_nat t * 100 \<le> 100"
proof -
  have "(of_nat c :: rat) \<le> of_nat t"
    using assms by (simp only: of_nat_le_iff)
  then have "(of_nat c :: rat) / of_nat t \<le> 1"
    by (cases "t = 0") (simp_all add: divide_le_eq_1)
  then have "(of_nat c :: rat) / of_nat t * 100 \<le> 1 * 100"
    by (rule mult_right_mono) simp
  then show "(of_nat c :: rat) / of_nat t * 100 \<le> 100" by simp
  show "0 \<le> (of_nat c :: rat) / of_nat t * 100" by simp
qed

text \<open>
  Claim C10. For every sequence of analyses the summary counts each analysis once, as
  correct or as incorrect: \<open>correctCount + incorrectCount = totalQuestions\<close>, which is the
  length of the sequence; and the overall accuracy lies between 0 and 100.
\<close>

theorem counts_partition_total:
  "correctCount (generateSummary analyses) + incorrectCount (generateSummary analyses)
     = totalQuestions (generateSummary analyses)
   \<and> totalQuestions (generateSummary analyses) = length analyses
   \<and> 0 \<le> StudySummary.accuracy (generateSummary analyses)
   \<and> StudySummary.accuracy (generateSummary analyses) \<le> 100"
proof -
  have le: "length (filter isCorrect analyses) \<le> length analyses" by simp
  show ?thesis
    using ratio_bounds [OF le]
    by (simp add: generateSummary_counts countResults_eq sum_length_filter_compl)
qed

theorem counts_partition_total_witness:
  "correctCount (generateSummary sampleAnalyses) + incorrectCount (generateSummary sampleAnalyses) = 5
   \<and> totalQuestions (generateSummary sampleAnalyses) = 5
   \<and> StudySummary.accuracy (generateSummary sampleAnalyses) \<le> 100"
  using counts_partition_total [of sampleAnalyses] by (simp add: sampleAnalyses_def)

subsection \<open>The recommendations\<close>

text \<open>
  Claim C8. The overall-accuracy banding of \<open>generateRecommendations\<close>: the
  fundamentals-review message is emitted exactly when the accuracy is below 60, the
  on-track message exactly when it is in [60, 75), the exam-ready message exactly when it
  is 85 or more, and for an accuracy in [75, 85) none of the three is emitted.
\<close>

theorem overall_banding:
  "(FundamentalsReview \<in> set (generateRecommendations summary analyses))
      = (StudySummary.accuracy summary < 60)
   \<and> (OnTrack \<in> set (generateRecommendations summary analyses))
      = (60 \<le> StudySummary.accuracy summary \<and> StudySummary.accuracy summary < 75)
   \<and> (ExamReady \<in> set (generateRecommendations summary analyses))
      = (85 \<le> StudySummary.accuracy summary)
   \<and> (75 \<le> StudySummary.accuracy summary \<and> StudySummary.accuracy summary < 85 \<longrightarrow>
        FundamentalsReview \<notin> set (generateRecommendations summary analyses)
        \<and> OnTrack \<notin> set (generateRecommendations summary analyses)
        \<and> ExamReady \<notin> set (generateRecommendations summary analyses))"
  by (auto simp: generateRecommendations_def Let_def)

theorem overall_banding_witness:
  "FundamentalsReview \<notin> set (generateRecommendations (summaryWithAccuracy 80) sampleAnalyses)
   \<and> OnTrack \<notin> set (generateRecommendations (summaryWithAccuracy 80) sampleAnalyses)
   \<and> ExamReady \<notin> set (generateRecommendations (summaryWithAccuracy 80) sampleAnalyses)
   \<and> FundamentalsReview \<in> set (generateRecommendations (summaryWithAccuracy 40) sampleAnalyses)
   \<and> OnTrack \<in> set (generateRecommendations (summaryWithAccuracy 60) sampleAnalyses)
   \<and> ExamReady \<in> set (generateRecommendations (summaryWithAccuracy 85) sampleAnalyses)"
  using overall_banding [of "summaryWithAccuracy 80" sampleAnalyses]
        overall_banding [of "summaryWithAccuracy 40" sampleAnalyses]
        overall_banding [of "summaryWithAccuracy 60" sampleAnalyses]
        overall_banding [of "summaryWithAccuracy 85" sampleAnalyses]
  by (simp add: summaryWithAccuracy_def)

subsection \<open>The breakdowns\<close>

lemma countAnswer_fields:
  "Breakdown.total (countAnswer ok b) = Breakdown.total b + 1"
  "correct (countAnswer ok b) = correct b + (if ok then 1 else 0)"
  "incorrect (countAnswer ok b) = incorrect b + (if ok then 0 else 1)"
  by (simp_all add: countAnswer_def)

lemma map_of_observe:
  "map_of (observe ok key bd) k =
     (if k = key then Some (countAnswer ok (breakdownOf bd key)) else map_of bd k)"
  by (induction bd) (auto simp: breakdownOf_def)

lemma breakdownOf_observe:
  "breakdownOf (observe ok key bd) k =
     (if k = key then countAnswer ok (breakdownOf bd key) else breakdownOf bd k)"
  by (simp add: breakdownOf_def map_of_observe)

lemma keys_observe:
  "map fst (observe ok key bd) = (if key \<in> fst ` set bd then map fst bd else map fst bd @ [key])"
proof (induction bd)
  case Nil
  show ?case by simp
next
  case (Cons e bd)
  obtain k b where e: "e = (k, b)" by (cases e)
  show ?case
  proof (cases "k = key")
    case True
    then show ?thesis by (simp add: e)
  next
    case False
    then show ?thesis using Cons.IH by (simp add: e)
  qed
qed

lemma distinct_observe: "distinct (map fst bd) \<Longrightarrow> distinct (map fst (observe ok key bd))"
  by (auto simp: keys_observe)

lemma entry_observe:
  "(k, b) \<in> set (observe ok key bd) \<Longrightarrow> (k, b) \<in> set bd \<or> (\<exists>b0. b = countAnswer ok b0)"
  by (induction bd) (auto split: if_splits)

text \<open>The nested loops are one loop over \<open>observationsOf\<close>.\<close>

lemma foldl_nested:
  "foldl (\<lambda>bd a. foldl (\<lambda>bd key. observe (isCorrect a) key bd) bd (names (tags a))) bd0 analyses
     = foldl (\<lambda>bd p. observe (fst p) (snd p) bd) bd0 (observationsOf names analyses)"
proof (induction analyses arbitrary: bd0)
  case Nil
  show ?case by (simp add: observationsOf_def)
next
  case (Cons a as)
  have inner: "foldl (\<lambda>bd key. observe (isCorrect a) key bd) bd0 ks
      = foldl (\<lambda>bd p. observe (fst p) (snd p) bd) bd0 (map (\<lambda>k. (isCorrect a, k)) ks)" for ks
    by (induction ks arbitrary: bd0) simp_all
  show ?case
    using Cons.IH by (simp add: observationsOf_def inner)
qed

lemma buildBreakdown_flat:
  "buildBreakdown names analyses
     = foldl (\<lambda>bd p. observe (fst p) (snd p) bd) [] (observationsOf names analyses)"
  by (simp add: buildBreakdown_def foldl_nested)

lemma snd_observationsOf: "map snd (observationsOf names analyses) = observedNames names analyses"
  by (induction analyses) (simp_all add: observationsOf_def observedNames_def comp_def)

lemma foldl_observe_distinct:
  "distinct (map fst bd) \<Longrightarrow> distinct (map fst (foldl (\<lambda>bd p. observe (fst p) (snd p) bd) bd ps))"
  by (induction ps arbitrary: bd) (simp_all add: distinct_observe)

lemma foldl_observe_positive:
  "\<forall>(k, b) \<in> set bd. 1 \<le> Breakdown.total b \<Longrightarrow>
   \<forall>(k, b) \<in> set (foldl (\<lambda>bd p. observe (fst p) (snd p) bd) bd ps). 1 \<le> Breakdown.total b"
proof (induction ps arbitrary: bd)
  case Nil
  then show ?case by simp
next
  case (Cons p ps)
  have "\<forall>(k, b) \<in> set (observe (fst p) (snd p) bd). 1 \<le> Breakdown.total b"
    using Cons.prems by (auto dest!: entry_observe simp: countAnswer_fields)
  from Cons.IH [OF this] show ?case by simp
qed

lemma foldl_observe_total:
  "Breakdown.total (breakdownOf (foldl (\<lambda>bd p. observe (fst p) (snd p) bd) bd ps) k)
     = Breakdown.total (breakdownOf bd k) + count_list (map snd ps) k"
  by (induction ps arbitrary: bd) (simp_all add: breakdownOf_observe countAnswer_fields)

lemma foldl_observe_keys:
  "fst ` set (foldl (\<lambda>bd p. observe (fst p) (snd p) bd) bd ps) = fst ` set bd \<union> snd ` set ps"
proof (induction ps arbitrary: bd)
  case Nil
  show ?case by simp
next
  case (Cons p ps)
  have "fst ` set (observe (fst p) (snd p) bd) = insert (snd p) (fst ` set bd)"
    using keys_observe [of "fst p" "snd p" bd]
    by (metis (no_types, lifting) Un_insert_right append_Nil2 insert_absorb list.set_map
        list.simps(15) set_append)
  with Cons.IH [of "observe (fst p) (snd p) bd"] show ?case by auto
qed

lemma buildBreakdown_distinct: "distinct (map fst (buildBreakdown names analyses))"
  unfolding buildBreakdown_flat by (rule foldl_observe_distinct) simp

lemma buildBreakdown_positive:
  "(k, b) \<in> set (buildBreakdown names analyses) \<Longrightarrow> 1 \<le> Breakdown.total b"
  using foldl_observe_positive [of "[]" "observationsOf names analyses"]
  unfolding buildBreakdown_flat by auto

lemma buildBreakdown_total:
  assumes "(k, b) \<in> set (buildBreakdown names analyses)"
  shows "Breakdown.total b = count_list (observedNames names analyses) k"
proof -
  have "map_of (buildBreakdown names analyses) k = Some b"
    using assms buildBreakdown_distinct by simp
  then have "breakdownOf (buildBreakdown names analyses) k = b"
    by (simp add: breakdownOf_def)
  then show ?thesis
    using foldl_observe_total [of "[]" "observationsOf names analyses" k]
    by (simp add: buildBreakdown_flat snd_observationsOf breakdownOf_def emptyBreakdown_def)
qed

lemma buildBreakdown_keys:
  "fst ` set (buildBreakdown names analyses) = set (observedNames names analyses)"
  using foldl_observe_keys [of "[]" "observationsOf names analyses"]
  by (simp add: buildBreakdown_flat flip: snd_observationsOf)

lemma calculateAccuracies_keys: "map fst (calculateAccuracies bd) = map fst bd"
  by (induction bd) (auto simp: calculateAccuracies_def)

lemma calculateAccuracies_entry:
  "(k, b) \<in> set (calculateAccuracies bd) \<longleftrightarrow> (\<exists>b0. (k, b0) \<in> set bd \<and> b = setAccuracy b0)"
  by (auto simp: calculateAccuracies_def)

lemma setAccuracy_fields:
  "Breakdown.total (setAccuracy b) = Breakdown.total b"
  "correct (setAccuracy b) = correct b"
  "incorrect (setAccuracy b) = incorrect b"
  "Breakdown.accuracy (setAccuracy b) = of_nat (correct b) / of_nat (Breakdown.total b) * 100"
  by (simp_all add: setAccuracy_def)

lemma generateSummary_breakdowns:
  "serviceBreakdown (generateSummary xs) = calculateAccuracies (buildBreakdown services xs)"
  "domainBreakdown (generateSummary xs) = calculateAccuracies (buildBreakdown domains xs)"
  by (simp_all add: generateSummary_def Let_def)

lemma breakdown_entry_ok:
  assumes "(k, b) \<in> set (calculateAccuracies (buildBreakdown names analyses))"
  shows "1 \<le> Breakdown.total b"
    and "Breakdown.accuracy b = of_nat (correct b) / of_nat (Breakdown.total b) * 100"
    and "Breakdown.total b = count_list (observedNames names analyses) k"
proof -
  from assms obtain b0 where b0: "(k, b0) \<in> set (buildBreakdown names analyses)" "b = setAccuracy b0"
    by (auto simp: calculateAccuracies_entry)
  show "1 \<le> Breakdown.total b" using buildBreakdown_positive [OF b0(1)] b0(2) by (simp add: setAccuracy_fields)
  show "Breakdown.accuracy b = of_nat (correct b) / of_nat (Breakdown.total b) * 100"
    using b0(2) by (simp add: setAccuracy_fields)
  show "Breakdown.total b = count_list (observedNames names analyses) k"
    using buildBreakdown_total [OF b0(1)] b0(2) by (simp add: setAccuracy_fields)
qed

lemma sorted_sortBy_ascending:
  "sorted_wrt (\<lambda>a b. f a \<le> f b) (sortBy (\<lambda>a b. f a - f b) xs)"
  using sorted_sort_key [of f xs] by (simp add: sortBy_ascending sorted_map)

lemma sorted_sortBy_descending:
  "sorted_wrt (\<lambda>a b. f a \<ge> f b) (sortBy (\<lambda>a b. f b - f a) xs)"
  using sorted_sort_key [of "\<lambda>x. - f x" xs] by (simp add: sortBy_descending sorted_map)

lemma set_sortBy_ascending: "set (sortBy (\<lambda>a b. f a - f b) xs) = set xs"
  by (simp add: sortBy_ascending)

lemma set_sortBy_descending: "set (sortBy (\<lambda>a b. f b - f a) xs) = set xs"
  by (simp add: sortBy_descending)

lemma generateSummary_areas:
  "weakAreas (generateSummary xs) =
     sortBy (\<lambda>a b. Area.accuracy a - Area.accuracy b)
       (map toArea (filter (\<lambda>(k, d). isWeak d) (serviceBreakdown (generateSummary xs))))"
  "strongAreas (generateSummary xs) =
     sortBy (\<lambda>a b. Area.accuracy b - Area.accuracy a)
       (map toArea (filter (\<lambda>(k, d). isStrong d) (serviceBreakdown (generateSummary xs))))"
  by (simp_all add: generateSummary_def Let_def)

lemma weak_entries:
  "a \<in> set (weakAreas (generateSummary xs)) \<longleftrightarrow>
     (\<exists>k d. (k, d) \<in> set (serviceBreakdown (generateSummary xs))
        \<and> 2 \<le> Breakdown.total d \<and> Breakdown.accuracy d < 70
        \<and> a = \<lparr> Area.service = k, accuracy = Breakdown.accuracy d,
                 questionsReviewed = Breakdown.total d \<rparr>)"
  by (force simp: generateSummary_areas(1) set_sortBy_ascending isWeak_def toArea_def image_iff)

lemma strong_entries:
  "a \<in> set (strongAreas (generateSummary xs)) \<longleftrightarrow>
     (\<exists>k d. (k, d) \<in> set (serviceBreakdown (generateSummary xs))
        \<and> 2 \<le> Breakdown.total d \<and> 85 \<le> Breakdown.accuracy d
        \<and> a = \<lparr> Area.service = k, accuracy = Breakdown.accuracy d,
                 questionsReviewed = Breakdown.total d \<rparr>)"
  by (force simp: generateSummary_areas(2) set_sortBy_descending isStrong_def toArea_def image_iff)

subsection \<open>The sample analyses, evaluated\<close>

lemma sample_overall:
  "totalQuestions (generateSummary sampleAnalyses) = 5"
  "correctCount (generateSummary sampleAnalyses) = 3"
  "StudySummary.accuracy (generateSummary sampleAnalyses) = 60"
  by (simp_all add: generateSummary_counts countResults_eq sampleAnalyses_def analysisOf_def)

lemma sample_observed:
  "observedNames services sampleAnalyses = [''IAM'', ''IAM'', ''S3'', ''IAM'', ''KMS'', ''KMS'']"
  by (simp add: observedNames_def sampleAnalyses_def analysisOf_def)

lemma sample_serviceBreakdown:
  "serviceBreakdown (generateSummary sampleAnalyses) =
     [(''IAM'', \<lparr> Breakdown.total = 3, correct = 1, incorrect = 2, accuracy = 100 / 3 \<rparr>),
      (''S3'', \<lparr> Breakdown.total = 1, correct = 0, incorrect = 1, accuracy = 0 \<rparr>),
      (''KMS'', \<lparr> Breakdown.total = 2, correct = 2, incorrect = 0, accuracy = 100 \<rparr>)]"
  by (simp add: generateSummary_breakdowns buildBreakdown_def sampleAnalyses_def analysisOf_def
        calculateAccuracies_def setAccuracy_def countAnswer_def emptyBreakdown_def)

lemma sample_domainBreakdown:
  "domainBreakdown (generateSummary sampleAnalyses) =
     [(''Security'', \<lparr> Breakdown.total = 5, correct = 3, incorrect = 2, accuracy = 60 \<rparr>)]"
  by (simp add: generateSummary_breakdowns buildBreakdown_def sampleAnalyses_def analysisOf_def
        calculateAccuracies_def setAccuracy_def countAnswer_def emptyBreakdown_def)

lemma sample_weakAreas:
  "weakAreas (generateSummary sampleAnalyses) =
     [\<lparr> Area.service = ''IAM'', accuracy = 100 / 3, questionsReviewed = 3 \<rparr>]"
  by (simp add: generateSummary_areas sample_serviceBreakdown isWeak_def toArea_def sortBy_def)

lemma sample_strongAreas:
  "strongAreas (generateSummary sampleAnalyses) =
     [\<lparr> Area.service = ''KMS'', accuracy = 100, questionsReviewed = 2 \<rparr>]"
  by (simp add: generateSummary_areas sample_serviceBreakdown isStrong_def toArea_def sortBy_def)

text \<open>
  Claim C5. For every sequence of analyses, the overall accuracy is
  \<open>correctCount / totalQuestions * 100\<close> when there is a question and 0 when there is
  none; every entry of the service breakdown and of the domain breakdown has a total of
  at least 1 (so the quotient never has a zero divisor) and its accuracy is
  \<open>correct / total * 100\<close>.
\<close>

theorem accuracy_formula:
  "StudySummary.accuracy (generateSummary analyses) =
     (if totalQuestions (generateSummary analyses) > 0
      then of_nat (correctCount (generateSummary analyses))
             / of_nat (totalQuestions (generateSummary analyses)) * 100
      else 0)
   \<and> (\<forall>(k, b) \<in> set (serviceBreakdown (generateSummary analyses)).
        1 \<le> Breakdown.total b
        \<and> Breakdown.accuracy b = of_nat (correct b) / of_nat (Breakdown.total b) * 100)
   \<and> (\<forall>(k, b) \<in> set (domainBreakdown (generateSummary analyses)).
        1 \<le> Breakdown.total b
        \<and> Breakdown.accuracy b = of_nat (correct b) / of_nat (Breakdown.total b) * 100)"
  using breakdown_entry_ok(1,2) [of _ _ services analyses] breakdown_entry_ok(1,2) [of _ _ domains analyses]
  by (auto simp: generateSummary_counts generateSummary_breakdowns)

theorem accuracy_formula_witness:
  "StudySummary.accuracy (generateSummary sampleAnalyses) = 60
   \<and> (''IAM'', \<lparr> Breakdown.total = 3, correct = 1, incorrect = 2, accuracy = 100 / 3 \<rparr>)
        \<in> set (serviceBreakdown (generateSummary sampleAnalyses))
   \<and> (''Security'', \<lparr> Breakdown.total = 5, correct = 3, incorrect = 2, accuracy = 60 \<rparr>)
        \<in> set (domainBreakdown (generateSummary sampleAnalyses))"
  using accuracy_formula [of sampleAnalyses]
  by (simp add: sample_serviceBreakdown sample_domainBreakdown sample_overall)

subsection \<open>The heatmap\<close>

lemma bucket_status:
  "(85 \<le> acc \<longrightarrow> getStatus acc = ''Strong'' \<and> getHeatColor acc = ''#22c55e'')
   \<and> (70 \<le> acc \<and> acc < 85 \<longrightarrow> getStatus acc = ''Good'' \<and> getHeatColor acc = ''#eab308'')
   \<and> (50 \<le> acc \<and> acc < 70 \<longrightarrow> getStatus acc = ''Review'' \<and> getHeatColor acc = ''#f97316'')
   \<and> (acc < 50 \<longrightarrow> getStatus acc = ''Weak'' \<and> getHeatColor acc = ''#ef4444'')"
  by (simp add: getStatus_def getHeatColor_def)

text \<open>
  Claim C6. For every summary, the heatmap has exactly one item per key of the service
  breakdown (the services of the items are a permutation of the keys), it is in ascending
  order of accuracy, each item carries the accuracy and the total of its breakdown entry,
  and status and colour follow the inclusive lower bounds: 85 and more is Strong and
  green (#22c55e), 70 and more is Good and yellow (#eab308), 50 and more is Review and
  orange (#f97316), anything below is Weak and red (#ef4444).
\<close>

theorem heatmap_projection:
  "mset (map HeatmapItem.service (generateHeatmapData summary)) = mset (map fst (serviceBreakdown summary))
   \<and> length (generateHeatmapData summary) = length (serviceBreakdown summary)
   \<and> sorted_wrt (\<lambda>a b. HeatmapItem.accuracy a \<le> HeatmapItem.accuracy b) (generateHeatmapData summary)
   \<and> (\<forall>item \<in> set (generateHeatmapData summary).
        (\<exists>d. map_of (serviceBreakdown summary) (HeatmapItem.service item) = Some d
           \<and> HeatmapItem.accuracy item = Breakdown.accuracy d
           \<and> HeatmapItem.total item = Breakdown.total d)
        \<and> (85 \<le> HeatmapItem.accuracy item \<longrightarrow> status item = ''Strong'' \<and> color item = ''#22c55e'')
        \<and> (70 \<le> HeatmapItem.accuracy item \<and> HeatmapItem.accuracy item < 85 \<longrightarrow>
             status item = ''Good'' \<and> color item = ''#eab308'')
        \<and> (50 \<le> HeatmapItem.accuracy item \<and> HeatmapItem.accuracy item < 70 \<longrightarrow>
             status item = ''Review'' \<and> color item = ''#f97316'')
        \<and> (HeatmapItem.accuracy item < 50 \<longrightarrow> status item = ''Weak'' \<and> color item = ''#ef4444''))"
proof -
  define bd where "bd = serviceBreakdown summary"
  define mk where "mk = (\<lambda>name. let data = breakdownOf bd name
                   in \<lparr> HeatmapItem.service = name, accuracy = Breakdown.accuracy data,
                        total = Breakdown.total data, color = getHeatColor (Breakdown.accuracy data),
                        status = getStatus (Breakdown.accuracy data) \<rparr>)"
  have h: "generateHeatmapData summary = sort_key HeatmapItem.accuracy (map mk (map fst bd))"
    by (simp add: generateHeatmapData_def Let_def sortBy_ascending bd_def mk_def)
  have svc: "HeatmapItem.service (mk name) = name" for name
    by (simp add: mk_def Let_def)
  have "mset (map HeatmapItem.service (sort_key HeatmapItem.accuracy (map mk (map fst bd))))
          = mset (map HeatmapItem.service (map mk (map fst bd)))"
    by (metis mset_map mset_sort)
  then have perm: "mset (map HeatmapItem.service (generateHeatmapData summary)) = mset (map fst bd)"
    by (simp add: h comp_def svc)
  have len: "length (generateHeatmapData summary) = length bd"
    by (simp add: h)
  have srt: "sorted_wrt (\<lambda>a b. HeatmapItem.accuracy a \<le> HeatmapItem.accuracy b) (generateHeatmapData summary)"
    using sorted_sort_key [of HeatmapItem.accuracy "map mk (map fst bd)"] by (simp add: h sorted_map)
  have items: "(\<exists>d. map_of bd (HeatmapItem.service item) = Some d
           \<and> HeatmapItem.accuracy item = Breakdown.accuracy d
           \<and> HeatmapItem.total item = Breakdown.total d)
        \<and> status item = getStatus (HeatmapItem.accuracy item)
        \<and> color item = getHeatColor (HeatmapItem.accuracy item)"
    if "item \<in> set (generateHeatmapData summary)" for item
  proof -
    from that obtain name where name: "name \<in> fst ` set bd" "item = mk name"
      by (auto simp: h)
    then obtain d where d: "map_of bd name = Some d"
      by (metis domD dom_map_of_conv_image_fst)
    then have "breakdownOf bd name = d" by (simp add: breakdownOf_def)
    with name(2) d show ?thesis by (simp add: mk_def Let_def)
  qed
  show ?thesis
    using perm len srt items bucket_status unfolding bd_def by auto
qed

theorem heatmap_projection_witness:
  "map HeatmapItem.service (generateHeatmapData (generateSummary sampleAnalyses))
     = [''S3'', ''IAM'', ''KMS'']
   \<and> map status (generateHeatmapData (generateSummary sampleAnalyses))
     = [''Weak'', ''Weak'', ''Strong'']
   \<and> map color (generateHeatmapData (generateSummary sampleAnalyses))
     = [''#ef4444'', ''#ef4444'', ''#22c55e'']"
  using heatmap_projection [of "generateSummary sampleAnalyses"]
  by (simp add: generateHeatmapData_def sample_serviceBreakdown sortBy_def breakdownOf_def
        getStatus_def getHeatColor_def)

subsection \<open>The keyword ranking\<close>

lemma keys_countKeyword:
  "map fst (countKeyword kw m) = (if kw \<in> fst ` set m then map fst m else map fst m @ [kw])"
proof (induction m)
  case Nil
  show ?case by simp
next
  case (Cons e m)
  obtain k n where e: "e = (k, n)" by (cases e)
  show ?case
  proof (cases "k = kw")
    case True
    then show ?thesis by (simp add: e)
  next
    case False
    then show ?thesis using Cons.IH by (simp add: e)
  qed
qed

lemma map_of_countKeyword:
  "map_of (countKeyword kw m) k =
     (if k = kw then Some (case map_of m kw of None \<Rightarrow> 1 | Some n \<Rightarrow> n + 1) else map_of m k)"
  by (induction m) auto

lemma keywordMap_flat:
  "keywordMap analyses = foldl (\<lambda>m kw. countKeyword kw m) [] (observedNames keywords analyses)"
proof -
  have "foldl (\<lambda>m analysis. foldl (\<lambda>m kw. countKeyword kw m) m (keywords (tags analysis))) m0 analyses
      = foldl (\<lambda>m kw. countKeyword kw m) m0 (observedNames keywords analyses)" for m0
    by (induction analyses arbitrary: m0) (simp_all add: observedNames_def)
  then show ?thesis by (simp add: keywordMap_def)
qed

lemma firstSeen_append: "x \<in> set xs \<Longrightarrow> firstSeen (xs @ ys) x = firstSeen xs x"
  by (induction xs) (auto simp: firstSeen_def)

lemma firstSeen_less: "x \<in> set xs \<Longrightarrow> firstSeen xs x < length xs"
  by (induction xs) (auto simp: firstSeen_def)

lemma firstSeen_new: "x \<notin> set xs \<Longrightarrow> firstSeen (xs @ [x]) x = length xs"
  by (induction xs) (auto simp: firstSeen_def)

text \<open>The keys of the map are the keywords in the order they were first seen.\<close>

lemma counted_keys:
  "set (map fst (foldl (\<lambda>m kw. countKeyword kw m) [] kws)) = set kws
   \<and> distinct (map fst (foldl (\<lambda>m kw. countKeyword kw m) [] kws))
   \<and> sorted_wrt (\<lambda>a b. firstSeen kws a < firstSeen kws b)
        (map fst (foldl (\<lambda>m kw. countKeyword kw m) [] kws))"
proof (induction kws rule: rev_induct)
  case Nil
  show ?case by simp
next
  case (snoc k kws)
  define m where "m = foldl (\<lambda>m kw. countKeyword kw m) [] kws"
  have IH: "set (map fst m) = set kws" "distinct (map fst m)"
      "sorted_wrt (\<lambda>a b. firstSeen kws a < firstSeen kws b) (map fst m)"
    using snoc.IH by (simp_all add: m_def)
  have step: "foldl (\<lambda>m kw. countKeyword kw m) [] (kws @ [k]) = countKeyword k m"
    by (simp add: m_def)
  have old: "sorted_wrt (\<lambda>a b. firstSeen (kws @ [k]) a < firstSeen (kws @ [k]) b) (map fst m)"
    using IH(3) IH(1)
    by (rule_tac sorted_wrt_mono_rel [rotated]) (auto simp: firstSeen_append)
  show ?case
  proof (cases "k \<in> set kws")
    case True
    then have "map fst (countKeyword k m) = map fst m"
      using IH(1) by (simp add: keys_countKeyword)
    with IH old True show ?thesis unfolding step by auto
  next
    case False
    then have keys: "map fst (countKeyword k m) = map fst m @ [k]"
      using IH(1) by (simp add: keys_countKeyword)
    have "firstSeen (kws @ [k]) a < firstSeen (kws @ [k]) k" if "a \<in> set kws" for a
      using that False by (simp add: firstSeen_append firstSeen_new firstSeen_less)
    with IH old False show ?thesis
      unfolding step keys by (auto simp: sorted_wrt_append)
  qed
qed

lemma counted_values:
  "map_of (foldl (\<lambda>m kw. countKeyword kw m) [] kws) k =
     (if k \<in> set kws then Some (count_list kws k) else None)"
proof (induction kws rule: rev_induct)
  case Nil
  show ?case by simp
next
  case (snoc x kws)
  then show ?case by (auto simp: map_of_countKeyword)
qed


lemma sorted_wrt_filter_iff:
  "sorted_wrt R (filter P ys) = sorted_wrt (\<lambda>a b. P a \<and> P b \<longrightarrow> R a b) ys"
  by (induction ys) auto

text \<open>
  A stable sort keeps, among the elements with equal keys, any order the input had.
\<close>

lemma sort_key_keeps_order:
  assumes "sorted_wrt R xs"
  shows "sorted_wrt (\<lambda>a b. g a = g b \<longrightarrow> R a b) (sort_key g xs)"
proof -
  have "R (sort_key g xs ! i) (sort_key g xs ! j)"
    if "i < j" "j < length (sort_key g xs)" "g (sort_key g xs ! i) = g (sort_key g xs ! j)" for i j
  proof -
    define c where "c = g (sort_key g xs ! i)"
    have "sorted_wrt R (filter (\<lambda>y. g y = c) xs)"
      using assms by (rule sorted_wrt_filter)
    then have "sorted_wrt R (filter (\<lambda>y. g y = c) (sort_key g xs))"
      by (simp only: sort_key_stable)
    then have "sorted_wrt (\<lambda>a b. g a = c \<and> g b = c \<longrightarrow> R a b) (sort_key g xs)"
      by (simp only: sorted_wrt_filter_iff)
    from sorted_wrt_nth_less [OF this that(1,2)] that(3) show ?thesis
      by (simp add: c_def)
  qed
  then show ?thesis by (simp add: sorted_wrt_iff_nth_less)
qed

lemma generateSummary_topKeywords:
  "topKeywords (generateSummary analyses) =
     take 15 (sort_key (\<lambda>x :: KeywordFrequency. - (of_nat (KeywordFrequency.count x) :: rat))
       (map (\<lambda>(k, n). \<lparr> keyword = k, count = n \<rparr>) (keywordMap analyses)))"
  by (simp add: generateSummary_def Let_def sortBy_descending)

text \<open>
  Claim C7. For every sequence of analyses, \<open>topKeywords\<close> has at most 15 entries, is in
  descending order of count, and two entries with the same count stand in the order in
  which their keywords were first seen in the input; the count of an entry is the number
  of occurrences of its keyword.
\<close>

theorem top_keywords_ranked:
  "length (topKeywords (generateSummary analyses)) \<le> 15
   \<and> sorted_wrt (\<lambda>a b. KeywordFrequency.count a \<ge> KeywordFrequency.count b)
        (topKeywords (generateSummary analyses))
   \<and> (\<forall>i j. i < j \<and> j < length (topKeywords (generateSummary analyses))
          \<and> KeywordFrequency.count (topKeywords (generateSummary analyses) ! i)
              = KeywordFrequency.count (topKeywords (generateSummary analyses) ! j)
        \<longrightarrow> firstSeen (observedNames keywords analyses) (keyword (topKeywords (generateSummary analyses) ! i))
              < firstSeen (observedNames keywords analyses) (keyword (topKeywords (generateSummary analyses) ! j)))
   \<and> (\<forall>e \<in> set (topKeywords (generateSummary analyses)).
        KeywordFrequency.count e = count_list (observedNames keywords analyses) (keyword e))"
proof -
  define kws where "kws = observedNames keywords analyses"
  define km where "km = keywordMap analyses"
  define mk where "mk = (\<lambda>(k, n). \<lparr> keyword = k, count = n \<rparr>)"
  define g :: "KeywordFrequency \<Rightarrow> rat"
    where "g = (\<lambda>x. - of_nat (KeywordFrequency.count x))"
  define R :: "KeywordFrequency \<Rightarrow> KeywordFrequency \<Rightarrow> bool"
    where "R = (\<lambda>a b. firstSeen kws (keyword a) < firstSeen kws (keyword b))"
  define top where "top = topKeywords (generateSummary analyses)"
  have km: "km = foldl (\<lambda>m kw. countKeyword kw m) [] kws"
    by (simp add: km_def kws_def keywordMap_flat)
  have top: "top = take 15 (sort_key g (map mk km))"
    by (simp add: top_def generateSummary_topKeywords g_def mk_def km_def)
  have len: "length top \<le> 15"
    by (simp add: top)
  have "sorted_wrt (\<lambda>a b. g a \<le> g b) (sort_key g (map mk km))"
    using sorted_sort_key [of g "map mk km"] by (simp add: sorted_map)
  then have "sorted_wrt (\<lambda>a b. g a \<le> g b) top"
    unfolding top by (rule sorted_wrt_take)
  then have desc: "sorted_wrt (\<lambda>a b. KeywordFrequency.count a \<ge> KeywordFrequency.count b) top"
    by (simp add: g_def)
  have "sorted_wrt (\<lambda>a b. firstSeen kws a < firstSeen kws b) (map fst km)"
    using counted_keys [of kws] by (simp add: km)
  then have "sorted_wrt R (map mk km)"
    by (simp add: sorted_wrt_map R_def mk_def split_def)
  then have "sorted_wrt (\<lambda>a b. g a = g b \<longrightarrow> R a b) (sort_key g (map mk km))"
    by (rule sort_key_keeps_order)
  then have "sorted_wrt (\<lambda>a b. g a = g b \<longrightarrow> R a b) top"
    unfolding top by (rule sorted_wrt_take)
  then have ties: "R (top ! i) (top ! j)"
    if "i < j" "j < length top" "KeywordFrequency.count (top ! i) = KeywordFrequency.count (top ! j)"
    for i j
    using sorted_wrt_nth_less [OF _ that(1,2)] that(3) by (auto simp: g_def)
  have freq: "KeywordFrequency.count e = count_list kws (keyword e)" if "e \<in> set top" for e
  proof -
    from that have "e \<in> set (map mk km)"
      unfolding top by (auto dest: in_set_takeD)
    then obtain k n where kn: "(k, n) \<in> set km" "e = mk (k, n)" by auto
    have "distinct (map fst km)"
      using counted_keys [of kws] by (simp add: km)
    with kn(1) have "map_of km k = Some n" by simp
    then have "n = count_list kws k"
      using counted_values [of kws k] by (simp add: km split: if_splits)
    with kn(2) show ?thesis by (simp add: mk_def)
  qed
  show ?thesis
    using len desc ties freq unfolding top_def kws_def R_def by blast
qed

lemma sample_topKeywords:
  "topKeywords (generateSummary sampleAnalyses) =
     [\<lparr> keyword = ''VPC'', count = 3 \<rparr>, \<lparr> keyword = ''policy'', count = 2 \<rparr>,
      \<lparr> keyword = ''encryption'', count = 2 \<rparr>]"
  by (simp add: generateSummary_topKeywords keywordMap_def sampleAnalyses_def analysisOf_def)

lemma sample_keywords:
  "observedNames keywords sampleAnalyses
     = [''policy'', ''VPC'', ''VPC'', ''encryption'', ''policy'', ''encryption'', ''VPC'']"
  by (simp add: observedNames_def sampleAnalyses_def analysisOf_def)

theorem top_keywords_ranked_witness:
  "topKeywords (generateSummary sampleAnalyses) ! 1 = \<lparr> keyword = ''policy'', count = 2 \<rparr>
   \<and> topKeywords (generateSummary sampleAnalyses) ! 2 = \<lparr> keyword = ''encryption'', count = 2 \<rparr>
   \<and> firstSeen (observedNames keywords sampleAnalyses) ''policy''
       < firstSeen (observedNames keywords sampleAnalyses) ''encryption''
   \<and> length (topKeywords (generateSummary sampleAnalyses)) = 3"
  using top_keywords_ranked [of sampleAnalyses]
  by (simp add: sample_topKeywords sample_keywords firstSeen_def)

subsection \<open>The upload loop\<close>

lemma processImages_append:
  "processImages env imageFiles analyses = analyses @ map (processImage env) imageFiles"
  by (induction imageFiles arbitrary: analyses) simp_all

lemma sample_processed:
  "processImages sampleEnvironment sampleFiles [] =
     [analysedEntry ''a.png'' ''Your Answer: B'',
      failedEntry ''b.png'' ''OCR failed: bad image'',
      failedEntry ''c.png'' ''ENOENT'',
      analysedEntry ''d.png'' ''Your Answer: B'']"
  by (simp add: processImages_append sampleFiles_def sampleEnvironment_def processImage_def
        ocrImage_def trim_def isSpace_def)

text \<open>
  Claim C9. The loop over the image files pushes one analysis per file, whatever fails:
  for a file that cannot be read, or whose recognition fails, it pushes the entry of the
  \<open>catch\<close> block, and every other file gets the entry of its recognized text. The
  entry of the \<open>catch\<close> block has an empty question, no options, empty answers and
  explanation, the error message in \<open>rawText\<close>, no services, domains or keywords, and
  \<open>isCorrect = false\<close>.
\<close>

theorem failure_does_not_abort:
  "length (processImages env imageFiles []) = length imageFiles
   \<and> (\<forall>i < length imageFiles.
        (\<forall>message. readFile env (imageFiles ! i) = Inl message \<longrightarrow>
           processImages env imageFiles [] ! i
             = failedEntry (basename env (imageFiles ! i)) message)
        \<and> (\<forall>base64 message.
             readFile env (imageFiles ! i) = Inr base64 \<and> recognize env base64 = Inl message \<longrightarrow>
               processImages env imageFiles [] ! i
                 = failedEntry (basename env (imageFiles ! i)) (''OCR failed: '' @ message))
        \<and> (\<forall>base64 extractedText.
             readFile env (imageFiles ! i) = Inr base64 \<and> ocrImage env base64 = Inr extractedText \<longrightarrow>
               processImages env imageFiles [] ! i
                 = analysedEntry (basename env (imageFiles ! i)) extractedText))
   \<and> (\<forall>fileName message.
        question (parsed (failedEntry fileName message)) = []
        \<and> options (parsed (failedEntry fileName message)) = []
        \<and> yourAnswer (parsed (failedEntry fileName message)) = []
        \<and> correctAnswer (parsed (failedEntry fileName message)) = []
        \<and> explanation (parsed (failedEntry fileName message)) = []
        \<and> rawText (parsed (failedEntry fileName message)) = ''Error: '' @ message
        \<and> services (tags (failedEntry fileName message)) = []
        \<and> domains (tags (failedEntry fileName message)) = []
        \<and> keywords (tags (failedEntry fileName message)) = []
        \<and> \<not> isCorrect (failedEntry fileName message)
        \<and> file (failedEntry fileName message) = fileName)"
proof -
  have len: "length (processImages env imageFiles []) = length imageFiles"
    by (simp add: processImages_append)
  have nth: "processImages env imageFiles [] ! i = processImage env (imageFiles ! i)"
    if "i < length imageFiles" for i
    using that by (simp add: processImages_append)
  have unreadable: "processImage env filePath = failedEntry (basename env filePath) message"
    if "readFile env filePath = Inl message" for filePath message
    using that by (simp add: processImage_def)
  have unrecognized:
    "processImage env filePath = failedEntry (basename env filePath) (''OCR failed: '' @ message)"
    if "readFile env filePath = Inr base64" and "recognize env base64 = Inl message"
    for filePath base64 message
    using that by (simp add: processImage_def ocrImage_def)
  have recognized: "processImage env filePath = analysedEntry (basename env filePath) extractedText"
    if "readFile env filePath = Inr base64" and "ocrImage env base64 = Inr extractedText"
    for filePath base64 extractedText
    using that by (simp add: processImage_def)
  show ?thesis
    using len nth unreadable unrecognized recognized by (simp add: failedEntry_def)
qed

theorem failure_does_not_abort_witness:
  "length (processImages sampleEnvironment sampleFiles []) = 4
   \<and> processImages sampleEnvironment sampleFiles [] ! 1
       = failedEntry ''b.png'' ''OCR failed: bad image''
   \<and> processImages sampleEnvironment sampleFiles [] ! 2 = failedEntry ''c.png'' ''ENOENT''
   \<and> processImages sampleEnvironment sampleFiles [] ! 3
       = analysedEntry ''d.png'' ''Your Answer: B''"
  using failure_does_not_abort [of sampleEnvironment sampleFiles]
  by (simp add: sample_processed)

subsection \<open>The correctness flag\<close>

text \<open>
  Normalizing the line breaks neither creates nor removes a label: it only replaces
  white space by white space.
\<close>

lemma normalize_Nil: "normalizeLineBreaks [] = []"
  by (simp add: normalizeLineBreaks_def replaceCR_def)

lemma normalize_other: "c \<noteq> CR \<Longrightarrow> normalizeLineBreaks (c # cs) = c # normalizeLineBreaks cs"
  by (cases cs) (simp_all add: normalizeLineBreaks_def replaceCR_def)

lemma normalize_CRLF: "normalizeLineBreaks (CR # LF # cs) = LF # normalizeLineBreaks cs"
  by (simp add: normalizeLineBreaks_def replaceCR_def)

lemma normalize_CR:
  "cs = [] \<or> hd cs \<noteq> LF \<Longrightarrow> normalizeLineBreaks (CR # cs) = LF # normalizeLineBreaks cs"
  by (cases cs) (auto simp: normalizeLineBreaks_def replaceCR_def)

lemma normalize_CR_hd: "\<exists>rest. normalizeLineBreaks (CR # cs) = LF # rest"
  by (cases cs) (auto simp: normalizeLineBreaks_def replaceCR_def)

lemma of_char_asciiUpper:
  "(of_char (asciiUpper c) :: nat) =
     (if 97 \<le> (of_char c :: nat) \<and> (of_char c :: nat) \<le> 122 then of_char c - 32 else of_char c)"
  by (auto simp: asciiUpper_def Let_def)

lemma asciiUpper_LF: "asciiUpper p = asciiUpper LF \<Longrightarrow> p = LF"
proof -
  assume eq: "asciiUpper p = asciiUpper LF"
  have lf: "asciiUpper LF = LF" by (simp add: asciiUpper_def LF_def)
  have "(of_char (asciiUpper p) :: nat) = 10"
    using eq lf by (simp add: LF_def)
  then have "(of_char p :: nat) = 10"
    by (simp add: of_char_asciiUpper split: if_splits)
  then have "(of_char p :: nat) = of_char LF" by (simp add: LF_def)
  then show "p = LF" by (simp only: of_char_eq_iff)
qed

lemma space_CR_LF: "isSpace CR" "isSpace LF" "CR \<noteq> LF"
  by (simp_all add: isSpace_def CR_def LF_def)

lemma matchLit_normalize:
  "LF \<notin> set p \<Longrightarrow> matchLit p (normalizeLineBreaks s) = Some r' \<Longrightarrow>
     \<exists>r. matchLit p s = Some r \<and> r' = normalizeLineBreaks r"
proof (induction p arbitrary: s)
  case Nil
  then show ?case by simp
next
  case (Cons p ps)
  show ?case
  proof (cases s)
    case Nil
    with Cons.prems show ?thesis by (simp add: normalize_Nil)
  next
    case (Cons c cs)
    show ?thesis
    proof (cases "c = CR")
      case True
      then obtain rest where "normalizeLineBreaks s = LF # rest"
        using normalize_CR_hd [of cs] Cons by auto
      with Cons.prems have "asciiUpper p = asciiUpper LF"
        by (simp split: if_splits)
      then have "p = LF" by (rule asciiUpper_LF)
      with Cons.prems show ?thesis by simp
    next
      case False
      then have n: "normalizeLineBreaks s = c # normalizeLineBreaks cs"
        using Cons by (simp add: normalize_other)
      with Cons.prems have up: "asciiUpper p = asciiUpper c"
        and rest: "matchLit ps (normalizeLineBreaks cs) = Some r'"
        by (simp_all split: if_splits)
      from Cons.IH [OF _ rest] Cons.prems(1) obtain r where "matchLit ps cs = Some r"
        "r' = normalizeLineBreaks r" by auto
      with up Cons show ?thesis by simp
    qed
  qed
qed

lemma dropWhile_normalize:
  "dropWhile isSpace (normalizeLineBreaks s) = normalizeLineBreaks (dropWhile isSpace s)"
proof (induction s rule: replaceCRLF.induct)
  case 1
  show ?case by (simp add: normalize_Nil)
next
  case (2 c)
  show ?case
    by (cases "c = CR") (simp_all add: normalize_CR normalize_other normalize_Nil space_CR_LF)
next
  case (3 c d cs)
  show ?case
  proof (cases "c = CR")
    case True
    show ?thesis
    proof (cases "d = LF")
      case True
      with \<open>c = CR\<close> 3 show ?thesis by (simp add: normalize_CRLF space_CR_LF)
    next
      case False
      with \<open>c = CR\<close> 3 show ?thesis by (simp add: normalize_CR space_CR_LF)
    qed
  next
    case False
    with 3 show ?thesis by (simp add: normalize_other)
  qed
qed

lemma space_head_normalize:
  assumes "normalizeLineBreaks s = w' # ws'" and "isSpace w'"
  shows "\<exists>w ws. s = w # ws \<and> isSpace w
           \<and> dropWhile isSpace ws' = normalizeLineBreaks (dropWhile isSpace ws)"
proof (cases s)
  case Nil
  with assms show ?thesis by (simp add: normalize_Nil)
next
  case (Cons w ws)
  have w: "isSpace w"
  proof (cases "w = CR")
    case True
    then show ?thesis by (simp add: space_CR_LF)
  next
    case False
    with assms Cons show ?thesis by (simp add: normalize_other)
  qed
  have "dropWhile isSpace (normalizeLineBreaks s) = dropWhile isSpace ws'"
    using assms by simp
  moreover have "dropWhile isSpace s = dropWhile isSpace ws"
    using Cons w by simp
  ultimately have "dropWhile isSpace ws' = normalizeLineBreaks (dropWhile isSpace ws)"
    using dropWhile_normalize [of s] by simp
  with Cons w show ?thesis by simp
qed

lemma labelAt_normalize:
  assumes "LF \<notin> set word" and "labelAt word (normalizeLineBreaks s)"
  shows "labelAt word s"
proof -
  from assms(2) obtain r' w' ws' where r': "matchLit word (normalizeLineBreaks s) = Some r'"
      "r' = w' # ws'" "isSpace w'" "matchLit ''Answer'' (dropWhile isSpace ws') \<noteq> None"
    by (auto simp: labelAt_def split: option.splits list.splits)
  from matchLit_normalize [OF assms(1) r'(1)] obtain r where r: "matchLit word s = Some r"
      "r' = normalizeLineBreaks r" by auto
  from space_head_normalize [of r w' ws'] r(2) r'(2,3) obtain w ws where w: "r = w # ws" "isSpace w"
      "dropWhile isSpace ws' = normalizeLineBreaks (dropWhile isSpace ws)" by auto
  from r'(4) w(3) obtain x where "matchLit ''Answer'' (normalizeLineBreaks (dropWhile isSpace ws)) = Some x"
    by auto
  from matchLit_normalize [OF _ this] have "matchLit ''Answer'' (dropWhile isSpace ws) \<noteq> None"
    by (auto simp: LF_def)
  with r(1) w(1,2) show ?thesis by (simp add: labelAt_def)
qed

lemma labelAt_LF: "word \<noteq> [] \<Longrightarrow> LF \<notin> set word \<Longrightarrow> \<not> labelAt word (LF # rest)"
  by (cases word) (auto simp: labelAt_def dest: asciiUpper_LF split: option.splits)

lemma containsLabel_normalize:
  assumes "word \<noteq> []" and "LF \<notin> set word"
  shows "containsLabel word (normalizeLineBreaks s) \<Longrightarrow> containsLabel word s"
proof (induction s rule: replaceCRLF.induct)
  case 1
  then show ?case by (simp add: normalize_Nil)
next
  case (2 c)
  show ?case
  proof (cases "c = CR")
    case True
    with 2 assms show ?thesis by (simp add: normalize_CR normalize_Nil labelAt_LF)
  next
    case False
    with 2 have "labelAt word (normalizeLineBreaks [c])"
      by (simp add: normalize_other normalize_Nil)
    then have "labelAt word [c]" by (rule labelAt_normalize [OF assms(2)])
    then show ?thesis by simp
  qed
next
  case (3 c d cs)
  show ?case
  proof (cases "c = CR")
    case True
    show ?thesis
    proof (cases "d = LF")
      case True
      with \<open>c = CR\<close> 3 assms show ?thesis by (simp add: normalize_CRLF labelAt_LF)
    next
      case False
      with \<open>c = CR\<close> 3 assms show ?thesis by (simp add: normalize_CR labelAt_LF)
    qed
  next
    case False
    with "3.prems" have "labelAt word (normalizeLineBreaks (c # d # cs))
        \<or> containsLabel word (normalizeLineBreaks (d # cs))"
      by (simp add: normalize_other)
    then show ?thesis
    proof
      assume "labelAt word (normalizeLineBreaks (c # d # cs))"
      then have "labelAt word (c # d # cs)" by (rule labelAt_normalize [OF assms(2)])
      then show ?thesis by simp
    next
      assume "containsLabel word (normalizeLineBreaks (d # cs))"
      with "3.IH"(2) False have "containsLabel word (d # cs)" by simp
      then show ?thesis by simp
    qed
  qed
qed

lemma answerAt_label: "answerAt word s = Some l \<Longrightarrow> labelAt word s"
  by (auto simp: answerAt_def labelAt_def split: option.splits list.splits if_splits)

lemma answerMatch_label: "answerMatch word s = Some l \<Longrightarrow> containsLabel word s"
  by (induction s) (auto split: option.splits dest: answerAt_label)

lemma no_label_no_answer:
  assumes "word \<noteq> []" and "LF \<notin> set word" and "\<not> containsLabel word t"
  shows "answerMatch word (normalizeLineBreaks t) = None"
proof (cases "answerMatch word (normalizeLineBreaks t)")
  case None
  then show ?thesis .
next
  case (Some l)
  then have "containsLabel word (normalizeLineBreaks t)" by (rule answerMatch_label)
  then have "containsLabel word t" by (rule containsLabel_normalize [OF assms(1,2)])
  with assms(3) show ?thesis by simp
qed

text \<open>
  Claim C2. For every text that contains neither a "Your Answer" nor a "Correct Answer"
  label, \<open>parseQuestion\<close> yields both answers empty, as the claim says; but the flag
  \<open>isCorrect\<close> that the upload loop computes for it is the equality of the two empty
  strings, which is true, where the claim says false. (The \<open>catch\<close> block of the same
  loop pushes the same two empty answers with \<open>isCorrect = false\<close>.)
\<close>

theorem unanswered_marked_correct:
  assumes "\<not> containsLabel ''Your'' t" and "\<not> containsLabel ''Correct'' t"
  shows "yourAnswer (parseQuestion t) = []
   \<and> correctAnswer (parseQuestion t) = []
   \<and> isCorrect (analysedEntry fileName t)"
proof -
  have "answerMatch ''Your'' (normalizeLineBreaks t) = None"
    using assms(1) by (intro no_label_no_answer) (simp_all add: LF_def)
  moreover have "answerMatch ''Correct'' (normalizeLineBreaks t) = None"
    using assms(2) by (intro no_label_no_answer) (simp_all add: LF_def)
  ultimately show ?thesis
    by (simp add: parseQuestion_def analysedEntry_def Let_def)
qed

lemma unanswered_no_label:
  "\<not> containsLabel ''Your'' unansweredText" "\<not> containsLabel ''Correct'' unansweredText"
  unfolding unansweredText_def by code_simp+

theorem unanswered_marked_correct_witness:
  "\<not> containsLabel ''Your'' unansweredText
   \<and> \<not> containsLabel ''Correct'' unansweredText
   \<and> yourAnswer (parseQuestion unansweredText) = []
   \<and> correctAnswer (parseQuestion unansweredText) = []
   \<and> isCorrect (analysedEntry ''q.png'' unansweredText)
   \<and> yourAnswer (parsed (failedEntry ''q.png'' ''OCR failed'')) = []
   \<and> correctAnswer (parsed (failedEntry ''q.png'' ''OCR failed'')) = []
   \<and> \<not> isCorrect (failedEntry ''q.png'' ''OCR failed'')"
  using unanswered_marked_correct [OF unanswered_no_label, of "''q.png''"] unanswered_no_label
  by (simp add: failedEntry_def)

subsection \<open>The tagger\<close>

lemma count_list_filter: "count_list (filter P xs) x = (if P x then count_list xs x else 0)"
  by (induction xs) auto

lemma tagQuestion_services:
  "services (tagQuestion t) = filter (mentions (toUpperCase t)) AWS_SERVICES"
  by (simp add: tagQuestion_def Let_def)

lemma systemsManager_mentioned: "mentions (toUpperCase systemsManagerText) ''Systems Manager''"
  unfolding systemsManagerText_def by code_simp

lemma systemsManager_listed_twice: "count_list AWS_SERVICES ''Systems Manager'' = 2"
  by (simp add: AWS_SERVICES_def)

lemma distinct_count_le_1: "distinct xs \<Longrightarrow> count_list xs x \<le> 1"
  by (induction xs) (auto simp: count_list_0_iff)

text \<open>
  Claim C3. The services of a text are not always free of duplicates: \<open>AWS_SERVICES\<close>
  lists Systems Manager twice and the loop pushes every entry of the list that the text
  mentions, so every text that mentions Systems Manager is tagged with it twice.
\<close>

theorem tagger_duplicate:
  assumes "mentions (toUpperCase t) ''Systems Manager''"
  shows "count_list (services (tagQuestion t)) ''Systems Manager'' = 2
   \<and> \<not> distinct (services (tagQuestion t))"
proof -
  have two: "count_list (services (tagQuestion t)) ''Systems Manager'' = 2"
    using assms by (simp add: tagQuestion_services count_list_filter systemsManager_listed_twice)
  have "\<not> distinct (services (tagQuestion t))"
  proof
    assume "distinct (services (tagQuestion t))"
    from distinct_count_le_1 [OF this, of "''Systems Manager''"] two show False by simp
  qed
  with two show ?thesis by simp
qed

theorem tagger_duplicate_witness:
  "mentions (toUpperCase systemsManagerText) ''Systems Manager''
   \<and> count_list (services (tagQuestion systemsManagerText)) ''Systems Manager'' = 2
   \<and> \<not> distinct (services (tagQuestion systemsManagerText))"
  using tagger_duplicate [OF systemsManager_mentioned] systemsManager_mentioned by simp

subsection \<open>Weak and strong areas\<close>

text \<open>The one answered question that mentions Systems Manager, evaluated.\<close>

lemma upper_services: "map toUpperCase AWS_SERVICES =
     [''EC2'', ''LAMBDA'', ''ELASTIC BEANSTALK'', ''ECS'', ''EKS'', ''FARGATE'', ''LIGHTSAIL'',
      ''S3'', ''EBS'', ''EFS'', ''FSX'', ''STORAGE GATEWAY'', ''GLACIER'',
      ''RDS'', ''DYNAMODB'', ''ELASTICACHE'', ''AURORA'', ''DOCUMENTDB'', ''NEPTUNE'',
      ''REDSHIFT'', ''MEMORYDB'',
      ''VPC'', ''CLOUDFRONT'', ''ROUTE 53'', ''API GATEWAY'', ''DIRECT CONNECT'', ''ELB'',
      ''ALB'', ''NLB'', ''GLOBAL ACCELERATOR'',
      ''IAM'', ''COGNITO'', ''SECRETS MANAGER'', ''KMS'', ''SYSTEMS MANAGER'',
      ''PARAMETER STORE'', ''WAF'', ''SHIELD'', ''GUARDDUTY'', ''INSPECTOR'',
      ''SQS'', ''SNS'', ''EVENTBRIDGE'', ''STEP FUNCTIONS'', ''SWF'', ''AMAZON MQ'',
      ''KINESIS'', ''APPSYNC'',
      ''CODECOMMIT'', ''CODEBUILD'', ''CODEDEPLOY'', ''CODEPIPELINE'', ''CODEARTIFACT'',
      ''CODEGURU'', ''X-RAY'', ''CLOUDFORMATION'',
      ''CLOUDWATCH'', ''CLOUDTRAIL'', ''CONFIG'', ''SYSTEMS MANAGER'',
      ''ECR'', ''APP RUNNER'',
      ''SAM'', ''AMPLIFY'']"
  unfolding AWS_SERVICES_def by code_simp


lemma filter_via_map:
  "filter (\<lambda>x. Q (f x)) xs = map fst (filter (\<lambda>p. Q (snd p)) (zip xs (map f xs)))"
  by (induction xs) auto

lemma answered_upper:
  "toUpperCase systemsManagerAnswered = ''USE SYSTEMS MANAGER. YOUR ANSWER: A CORRECT ANSWER: A''"
  unfolding systemsManagerAnswered_def by code_simp

lemma answered_answers:
  "yourAnswer (parseQuestion systemsManagerAnswered) = ''A''"
  "correctAnswer (parseQuestion systemsManagerAnswered) = ''A''"
  unfolding systemsManagerAnswered_def by code_simp+

lemma answered_services:
  "services (tagQuestion systemsManagerAnswered) = [''Systems Manager'', ''Systems Manager'']"
proof -
  define Q where "Q = (\<lambda>u. includesStr ''USE SYSTEMS MANAGER. YOUR ANSWER: A CORRECT ANSWER: A'' u
        \<or> includesStr ''USE SYSTEMS MANAGER. YOUR ANSWER: A CORRECT ANSWER: A'' (''AWS '' @ u))"
  have "mentions ''USE SYSTEMS MANAGER. YOUR ANSWER: A CORRECT ANSWER: A'' = (\<lambda>s. Q (toUpperCase s))"
    by (intro ext) (simp only: mentions_def Let_def Q_def)
  then have "services (tagQuestion systemsManagerAnswered) = filter (\<lambda>s. Q (toUpperCase s)) AWS_SERVICES"
    by (simp only: tagQuestion_services answered_upper)
  also have "\<dots> = map fst (filter (\<lambda>p. Q (snd p)) (zip AWS_SERVICES (map toUpperCase AWS_SERVICES)))"
    by (rule filter_via_map)
  also have "\<dots> = [''Systems Manager'', ''Systems Manager'']"
    unfolding upper_services unfolding AWS_SERVICES_def Q_def by simp
  finally show ?thesis .
qed

lemma oneQuestion_fields:
  "services (tags (analysedEntry ''q.png'' systemsManagerAnswered))
     = [''Systems Manager'', ''Systems Manager'']"
  "isCorrect (analysedEntry ''q.png'' systemsManagerAnswered)"
  by (simp_all add: analysedEntry_def Let_def answered_services answered_answers)

lemma oneQuestion_serviceBreakdown:
  "serviceBreakdown (generateSummary oneQuestion) =
     [(''Systems Manager'',
       \<lparr> Breakdown.total = 2, correct = 2, incorrect = 0, accuracy = 100 \<rparr>)]"
  by (simp add: generateSummary_breakdowns buildBreakdown_def oneQuestion_def oneQuestion_fields
        calculateAccuracies_def setAccuracy_def countAnswer_def emptyBreakdown_def)

lemma oneQuestion_strongAreas:
  "strongAreas (generateSummary oneQuestion) =
     [\<lparr> Area.service = ''Systems Manager'', accuracy = 100, questionsReviewed = 2 \<rparr>]"
  by (simp add: generateSummary_areas oneQuestion_serviceBreakdown isStrong_def toArea_def sortBy_def)

lemma oneQuestion_tagged: "questionsTagged services oneQuestion ''Systems Manager'' = 1"
  by (simp add: questionsTagged_def oneQuestion_def oneQuestion_fields)

lemma oneQuestion_observed:
  "observedNames services oneQuestion = [''Systems Manager'', ''Systems Manager'']"
  by (simp add: observedNames_def oneQuestion_def oneQuestion_fields)

lemma count_list_distinct: "distinct xs \<Longrightarrow> count_list xs x = (if x \<in> set xs then 1 else 0)"
  by (induction xs) auto

lemma count_observed_distinct:
  "\<forall>a \<in> set analyses. distinct (names (tags a)) \<Longrightarrow>
     count_list (observedNames names analyses) k = questionsTagged names analyses k"
  by (induction analyses) (auto simp: observedNames_def questionsTagged_def count_list_distinct)

lemma mset_weakAreas:
  "mset (weakAreas (generateSummary xs)) =
     mset (map (\<lambda>(k, d). \<lparr> Area.service = k, accuracy = Breakdown.accuracy d,
                               questionsReviewed = Breakdown.total d \<rparr>)
            (filter (\<lambda>(k, d). 2 \<le> Breakdown.total d \<and> Breakdown.accuracy d < 70)
               (serviceBreakdown (generateSummary xs))))"
proof -
  have "(\<lambda>(k, d). isWeak d) = (\<lambda>(k :: string, d). 2 \<le> Breakdown.total d \<and> Breakdown.accuracy d < 70)"
    by (simp add: isWeak_def)
  moreover have "toArea = (\<lambda>(k, d). \<lparr> Area.service = k, accuracy = Breakdown.accuracy d,
                               questionsReviewed = Breakdown.total d \<rparr>)"
    by (intro ext) (simp add: toArea_def split_def)
  ultimately show ?thesis
    by (simp add: generateSummary_areas(1) sortBy_ascending)
qed

lemma mset_strongAreas:
  "mset (strongAreas (generateSummary xs)) =
     mset (map (\<lambda>(k, d). \<lparr> Area.service = k, accuracy = Breakdown.accuracy d,
                               questionsReviewed = Breakdown.total d \<rparr>)
            (filter (\<lambda>(k, d). 2 \<le> Breakdown.total d \<and> 85 \<le> Breakdown.accuracy d)
               (serviceBreakdown (generateSummary xs))))"
proof -
  have "(\<lambda>(k, d). isStrong d) = (\<lambda>(k :: string, d). 2 \<le> Breakdown.total d \<and> 85 \<le> Breakdown.accuracy d)"
    by (auto simp: isStrong_def)
  moreover have "toArea = (\<lambda>(k, d). \<lparr> Area.service = k, accuracy = Breakdown.accuracy d,
                               questionsReviewed = Breakdown.total d \<rparr>)"
    by (intro ext) (simp add: toArea_def split_def)
  ultimately show ?thesis
    by (simp add: generateSummary_areas(2) sortBy_descending)
qed

text \<open>
  Claim C4. For every sequence of analyses: the service breakdown has one entry per
  service; \<open>weakAreas\<close> holds exactly the entries with a total of at least 2 and an
  accuracy below 70, \<open>strongAreas\<close> exactly those with a total of at least 2 and an
  accuracy of at least 85, each with the accuracy and the total of its breakdown entry;
  \<open>weakAreas\<close> is in ascending and \<open>strongAreas\<close> in descending order of accuracy. The
  total of an entry is the number of occurrences of the service in the tag lists. When no
  tag list names a service twice, that is the number of questions tagged with it, and no
  service of fewer than 2 questions is in either list. When a tag list names a service
  twice, as the tagger's does for Systems Manager, one question counts twice: a service
  of a single question then enters \<open>strongAreas\<close>, where the claim (and the comment
  "Only consider if 2+ questions") says it never does.
\<close>

theorem areas_classified:
  "distinct (map fst (serviceBreakdown (generateSummary analyses)))
   \<and> mset (weakAreas (generateSummary analyses)) =
       mset (map (\<lambda>(k, d). \<lparr> Area.service = k, accuracy = Breakdown.accuracy d,
                                 questionsReviewed = Breakdown.total d \<rparr>)
              (filter (\<lambda>(k, d). 2 \<le> Breakdown.total d \<and> Breakdown.accuracy d < 70)
                 (serviceBreakdown (generateSummary analyses))))
   \<and> mset (strongAreas (generateSummary analyses)) =
       mset (map (\<lambda>(k, d). \<lparr> Area.service = k, accuracy = Breakdown.accuracy d,
                                 questionsReviewed = Breakdown.total d \<rparr>)
              (filter (\<lambda>(k, d). 2 \<le> Breakdown.total d \<and> 85 \<le> Breakdown.accuracy d)
                 (serviceBreakdown (generateSummary analyses))))
   \<and> (\<forall>k. (k \<in> Area.service ` set (weakAreas (generateSummary analyses))) =
          (\<exists>d. (k, d) \<in> set (serviceBreakdown (generateSummary analyses))
             \<and> 2 \<le> Breakdown.total d \<and> Breakdown.accuracy d < 70))
   \<and> (\<forall>k. (k \<in> Area.service ` set (strongAreas (generateSummary analyses))) =
          (\<exists>d. (k, d) \<in> set (serviceBreakdown (generateSummary analyses))
             \<and> 2 \<le> Breakdown.total d \<and> 85 \<le> Breakdown.accuracy d))
   \<and> sorted_wrt (\<lambda>a b. Area.accuracy a \<le> Area.accuracy b) (weakAreas (generateSummary analyses))
   \<and> sorted_wrt (\<lambda>a b. Area.accuracy a \<ge> Area.accuracy b) (strongAreas (generateSummary analyses))
   \<and> (\<forall>(k, d) \<in> set (serviceBreakdown (generateSummary analyses)).
         Breakdown.total d = count_list (observedNames services analyses) k)
   \<and> (\<forall>a \<in> set (weakAreas (generateSummary analyses)) \<union> set (strongAreas (generateSummary analyses)).
         questionsReviewed a = count_list (observedNames services analyses) (Area.service a)
         \<and> 2 \<le> count_list (observedNames services analyses) (Area.service a))
   \<and> ((\<forall>q \<in> set analyses. distinct (services (tags q))) \<longrightarrow>
        (\<forall>a \<in> set (weakAreas (generateSummary analyses)) \<union> set (strongAreas (generateSummary analyses)).
           questionsReviewed a = questionsTagged services analyses (Area.service a)
           \<and> 2 \<le> questionsTagged services analyses (Area.service a)))"
proof -
  have keys: "distinct (map fst (serviceBreakdown (generateSummary analyses)))"
    by (simp add: generateSummary_breakdowns calculateAccuracies_keys buildBreakdown_distinct)
  have weak: "(k \<in> Area.service ` set (weakAreas (generateSummary analyses))) =
          (\<exists>d. (k, d) \<in> set (serviceBreakdown (generateSummary analyses))
             \<and> 2 \<le> Breakdown.total d \<and> Breakdown.accuracy d < 70)" for k
    by (force simp: image_iff weak_entries)
  have strong: "(k \<in> Area.service ` set (strongAreas (generateSummary analyses))) =
          (\<exists>d. (k, d) \<in> set (serviceBreakdown (generateSummary analyses))
             \<and> 2 \<le> Breakdown.total d \<and> 85 \<le> Breakdown.accuracy d)" for k
    by (force simp: image_iff strong_entries)
  have ascending:
    "sorted_wrt (\<lambda>a b. Area.accuracy a \<le> Area.accuracy b) (weakAreas (generateSummary analyses))"
    unfolding generateSummary_areas by (rule sorted_sortBy_ascending)
  have descending:
    "sorted_wrt (\<lambda>a b. Area.accuracy a \<ge> Area.accuracy b) (strongAreas (generateSummary analyses))"
    unfolding generateSummary_areas by (rule sorted_sortBy_descending)
  have totals: "Breakdown.total d = count_list (observedNames services analyses) k"
    if "(k, d) \<in> set (serviceBreakdown (generateSummary analyses))" for k d
    using that breakdown_entry_ok(3) [of k d services analyses]
    by (simp add: generateSummary_breakdowns)
  have observed: "questionsReviewed a = count_list (observedNames services analyses) (Area.service a)
         \<and> 2 \<le> count_list (observedNames services analyses) (Area.service a)"
    if "a \<in> set (weakAreas (generateSummary analyses)) \<union> set (strongAreas (generateSummary analyses))"
    for a
  proof -
    from that obtain k d where kd: "(k, d) \<in> set (serviceBreakdown (generateSummary analyses))"
        "2 \<le> Breakdown.total d" "Area.service a = k" "questionsReviewed a = Breakdown.total d"
      by (auto simp: weak_entries strong_entries)
    with totals [OF kd(1)] show ?thesis by simp
  qed
  have questions: "questionsReviewed a = questionsTagged services analyses (Area.service a)
           \<and> 2 \<le> questionsTagged services analyses (Area.service a)"
    if "\<forall>q \<in> set analyses. distinct (services (tags q))"
      and "a \<in> set (weakAreas (generateSummary analyses)) \<union> set (strongAreas (generateSummary analyses))"
    for a
    using observed [OF that(2)] count_observed_distinct [OF that(1)] by simp
  show ?thesis
    using keys mset_weakAreas [of analyses] mset_strongAreas [of analyses] weak strong
      ascending descending totals observed questions
    by blast
qed

lemma oneQuestion_length: "length oneQuestion = 1"
  by (simp add: oneQuestion_def)

lemma sample_tagged:
  "questionsTagged services sampleAnalyses ''IAM'' = 3"
  "questionsTagged services sampleAnalyses ''KMS'' = 2"
  by (simp_all add: questionsTagged_def sampleAnalyses_def analysisOf_def)

theorem areas_classified_witness:
  "length oneQuestion = 1
   \<and> questionsTagged services oneQuestion ''Systems Manager'' = 1
   \<and> count_list (observedNames services oneQuestion) ''Systems Manager'' = 2
   \<and> strongAreas (generateSummary oneQuestion) =
       [\<lparr> Area.service = ''Systems Manager'', accuracy = 100, questionsReviewed = 2 \<rparr>]
   \<and> ''IAM'' \<in> Area.service ` set (weakAreas (generateSummary sampleAnalyses))
   \<and> ''S3'' \<notin> Area.service ` set (weakAreas (generateSummary sampleAnalyses))
   \<and> ''KMS'' \<in> Area.service ` set (strongAreas (generateSummary sampleAnalyses))
   \<and> questionsTagged services sampleAnalyses ''IAM'' = 3
   \<and> questionsTagged services sampleAnalyses ''KMS'' = 2"
  using areas_classified [of oneQuestion] areas_classified [of sampleAnalyses]
  by (simp add: oneQuestion_strongAreas oneQuestion_tagged oneQuestion_observed oneQuestion_length
        sample_weakAreas sample_strongAreas sample_serviceBreakdown sample_observed
        sample_tagged)

subsection \<open>The first scenario\<close>

lemma scenario1_parsed:
  "parseQuestion scenario1 =
     \<lparr> question = ''What is S3?'',
       options = [''a: t is S3? A) Object storage B) Block storage Your Answer: A Correct Answer: A Explanation: S3 is object storage.''],
       yourAnswer = ''A'', correctAnswer = ''A'',
       explanation = ''S3 is object storage.'',
       rawText = scenario1 \<rparr>"
  unfolding scenario1_def by code_simp

lemma scenario1_mentions_S3: "mentions (toUpperCase scenario1) ''S3''"
  unfolding scenario1_def by code_simp

lemma scenario1Lines_options:
  "options (parseQuestion scenario1Lines) =
     [''a: t is S3?'', ''A: Object storage'', ''B: Block storage'', ''A: nswer: A'',
      ''C: orrect Answer: A'', ''a: nation: S3 is object storage.'']"
  unfolding scenario1Lines_def by code_simp

text \<open>
  Claim C1. For the text of the first scenario, \<open>parseQuestion\<close> returns the question
  "What is S3?" and the answers "A" and "A", the derived \<open>isCorrect\<close> is true and the
  services of \<open>tagQuestion\<close> include S3, as the claim says. The options are not the two
  of the claim: the scan for options ("Extract Options (A, B, C, D format)") is not
  anchored and ignores case, so it starts at the letter a of "What" and takes the rest of
  the line, which is the rest of the text. With one field per line the scan still starts
  inside "What", "Answer", "Correct" and "Explanation" and yields six entries.
\<close>

theorem scenario1_options_diverge:
  "options (parseQuestion scenario1) =
       [''a: t is S3? A) Object storage B) Block storage Your Answer: A Correct Answer: A Explanation: S3 is object storage.'']
   \<and> options (parseQuestion scenario1) \<noteq> [''A: Object storage'', ''B: Block storage'']
   \<and> options (parseQuestion scenario1Lines) =
       [''a: t is S3?'', ''A: Object storage'', ''B: Block storage'', ''A: nswer: A'',
        ''C: orrect Answer: A'', ''a: nation: S3 is object storage.'']
   \<and> question (parseQuestion scenario1) = ''What is S3?''
   \<and> yourAnswer (parseQuestion scenario1) = ''A''
   \<and> correctAnswer (parseQuestion scenario1) = ''A''
   \<and> isCorrect (analysedEntry ''q1.png'' scenario1)
   \<and> ''S3'' \<in> set (services (tagQuestion scenario1))"
  by (simp add: scenario1_parsed scenario1Lines_options analysedEntry_def Let_def
        tagQuestion_services scenario1_mentions_S3 AWS_SERVICES_def)

theorem scenario1_options_diverge_witness:
  "length (options (parseQuestion scenario1)) = 1
   \<and> length (options (parseQuestion scenario1Lines)) = 6
   \<and> yourAnswer (parseQuestion scenario1) = correctAnswer (parseQuestion scenario1)"
  using scenario1_options_diverge by simp

end
